theory Spec2Isabelle
  imports Main "HOL-Library.Word"
begin

section \<open>Shared data model\<close>

text \<open>
  The types below are the ones the Go sources of \<^verbatim>\<open>renter/proto/negotiate.go\<close> and of the
  sector builder work on. Byte strings are lists of 8-bit words, \<^verbatim>\<open>uint64\<close> and
  \<^verbatim>\<open>types.BlockHeight\<close> are 64-bit words (Go arithmetic on them wraps), and
  \<^verbatim>\<open>types.Currency\<close>, an arbitrary-precision non-negative integer, is a natural number.
\<close>

type_synonym byte = "8 word"
type_synonym Hash = "byte list"
type_synonym Signature = "byte list"
type_synonym Currency = nat
type_synonym BlockHeight = "64 word"
type_synonym NetAddress = string

text \<open>
  Go errors. \<^verbatim>\<open>errors.New\<close> and \<^verbatim>\<open>errors.Wrap\<close> of \<^verbatim>\<open>github.com/pkg/errors\<close> are
  constructors; \<^verbatim>\<open>modules.ErrStopResponse\<close> is the sentinel value the negotiation code
  compares against; \<open>ErrIO\<close> stands for any error of the transport or the decoder.
  A Go panic is a value of its own type.
\<close>

datatype error =
    ErrorsNew string
  | ErrorsWrap error string
  | ErrStopResponse
  | ErrIO string

datatype panic = IndexOutOfRange | SliceBoundsOutOfRange | PanicMsg string

record SiacoinOutput =
  Value :: Currency
  OutputUnlockHash :: Hash

record UnlockConditions =
  Timelock :: BlockHeight
  PublicKeys :: "byte list list"
  SignaturesRequired :: "64 word"

record FileContractRevision =
  ParentID :: Hash
  RevUnlockConditions :: UnlockConditions
  NewRevisionNumber :: "64 word"
  NewFileSize :: "64 word"
  NewFileMerkleRoot :: Hash
  NewWindowStart :: BlockHeight
  NewWindowEnd :: BlockHeight
  NewValidProofOutputs :: "SiacoinOutput list"
  NewMissedProofOutputs :: "SiacoinOutput list"
  NewUnlockHash :: Hash

text \<open>
  Modelled from the spec: the constant \<^verbatim>\<open>proto.SegmentSize\<close> is declared outside the sources
  read here; the spec gives \<^verbatim>\<open>SEGMENT_SIZE = 64\<close> bytes, the cipher's block size.
\<close>

definition SegmentSize :: nat where
  "SegmentSize = 64"

text \<open>
  Modelled from the spec: the constant \<^verbatim>\<open>proto.SectorSize\<close> is declared outside the sources
  read here; the spec gives \<^verbatim>\<open>SECTOR_SIZE = 4 MiB\<close>.
\<close>

definition SectorSize :: nat where
  "SectorSize = 4194304"

text \<open>
  Modelled from the spec: the constant \<^verbatim>\<open>proto.SegmentsPerSector\<close> is declared outside the
  sources read here; the spec gives \<^verbatim>\<open>SEGMENTS_PER_SECTOR = 65536\<close>.
\<close>

definition SegmentsPerSector :: nat where
  "SegmentsPerSector = 65536"

section \<open>Revision construction\<close>

text \<open>
  \<^verbatim>\<open>Currency.Add\<close> is addition. \<^verbatim>\<open>Currency.Sub\<close> of the Sia library subtracts when the
  result is not negative; otherwise it reports a critical error and, in a release build,
  returns the zero currency.
\<close>

definition Currency_Add :: "Currency \<Rightarrow> Currency \<Rightarrow> Currency" where
  "Currency_Add x y = x + y"

definition Currency_Sub :: "Currency \<Rightarrow> Currency \<Rightarrow> Currency" where
  "Currency_Sub x y = (if x < y then 0 else x - y)"

definition zeroOutput :: SiacoinOutput where
  "zeroOutput = \<lparr>Value = 0, OutputUnlockHash = replicate 32 0\<rparr>"

text \<open>
  Go's builtin \<^verbatim>\<open>copy(dst, src)\<close> overwrites the first \<open>min (length dst) (length src)\<close>
  elements of \<open>dst\<close>.
\<close>

definition copy_slice :: "'a list \<Rightarrow> 'a list \<Rightarrow> 'a list" where
  "copy_slice dst src = take (length dst) src @ drop (length src) dst"

text \<open>
  \<^verbatim>\<open>newRevision\<close>: the output slices are fresh slices of length 2 and 3 holding a copy of
  the current ones; the reads \<^verbatim>\<open>current.NewValidProofOutputs[0]\<close>, \<^verbatim>\<open>[1]\<close> and
  \<^verbatim>\<open>current.NewMissedProofOutputs[0]\<close>, \<^verbatim>\<open>[2]\<close> panic when the current slices are shorter.
\<close>

definition newRevision :: "FileContractRevision \<Rightarrow> Currency \<Rightarrow> panic + FileContractRevision" where
  "newRevision current cost =
     (let cv = NewValidProofOutputs current;
          cm = NewMissedProofOutputs current;
          valid0 = copy_slice (replicate 2 zeroOutput) cv;
          missed0 = copy_slice (replicate 3 zeroOutput) cm
      in if length cv < 1 then Inl IndexOutOfRange
         else if length cv < 2 then Inl IndexOutOfRange
         else if length cm < 1 then Inl IndexOutOfRange
         else if length cm < 3 then Inl IndexOutOfRange
         else
           let valid1 = valid0[0 := (valid0 ! 0)\<lparr>Value := Currency_Sub (Value (cv ! 0)) cost\<rparr>];
               valid2 = valid1[1 := (valid1 ! 1)\<lparr>Value := Currency_Add (Value (cv ! 1)) cost\<rparr>];
               missed1 = missed0[0 := (missed0 ! 0)\<lparr>Value := Currency_Sub (Value (cm ! 0)) cost\<rparr>];
               missed2 = missed1[2 := (missed1 ! 2)\<lparr>Value := Currency_Add (Value (cm ! 2)) cost\<rparr>]
           in Inr (current\<lparr>NewValidProofOutputs := valid2,
                           NewMissedProofOutputs := missed2,
                           NewRevisionNumber := NewRevisionNumber current + 1\<rparr>))"

definition newDownloadRevision :: "FileContractRevision \<Rightarrow> Currency \<Rightarrow> panic + FileContractRevision" where
  "newDownloadRevision current downloadCost = newRevision current downloadCost"

definition newUploadRevision ::
  "FileContractRevision \<Rightarrow> Hash \<Rightarrow> Currency \<Rightarrow> Currency \<Rightarrow> panic + FileContractRevision" where
  "newUploadRevision current merkleRoot price collateral =
     (case newRevision current price of
        Inl p \<Rightarrow> Inl p
      | Inr rv \<Rightarrow>
          let m0 = NewMissedProofOutputs rv;
              m1 = m0[1 := (m0 ! 1)\<lparr>Value := Currency_Sub (Value (m0 ! 1)) collateral\<rparr>];
              m2 = m1[2 := (m1 ! 2)\<lparr>Value := Currency_Add (Value (m1 ! 2)) collateral\<rparr>]
          in Inr (rv\<lparr>NewMissedProofOutputs := m2,
                     NewFileSize := NewFileSize rv + of_nat SectorSize,
                      NewFileMerkleRoot := merkleRoot\<rparr>))"

section \<open>Sector builder\<close>

type_synonym EncryptionKey = "byte list"

text \<open>
  Modelled from the spec: the type \<^verbatim>\<open>SectorSlice\<close> is declared outside the sources read here;
  the spec gives it as \<^verbatim>\<open>{offset: u32, length: u32, checksum: 32B, merkle_root: 32B}\<close>, and
  \<open>Append\<close> fills the first three fields with \<^verbatim>\<open>uint32\<close> conversions and a hash.
\<close>

record SectorSlice =
  Offset :: "32 word"
  Length :: "32 word"
  Checksum :: Hash
  MerkleRoot :: Hash

text \<open>
  The builder: \<open>sector\<close> is the array \<^verbatim>\<open>[proto.SectorSize]byte\<close>, \<open>sectorLen\<close> the write
  cursor (a Go \<^verbatim>\<open>int\<close> that is never negative: it starts at 0 and only grows by lengths).
\<close>

record SectorBuilder =
  sector :: "byte list"
  sectorLen :: nat
  slices :: "SectorSlice list"

definition Reset :: "SectorBuilder \<Rightarrow> SectorBuilder" where
  "Reset sb = sb\<lparr>sectorLen := 0, slices := []\<rparr>"

text \<open>
  \<^verbatim>\<open>fastrand.Read(buf)\<close> overwrites all of \<open>buf\<close> with random bytes. The generator is
  a parameter: \<open>rnd k\<close> is the \<open>k\<close>-th byte this call draws.
\<close>

definition fastrand_Read :: "(nat \<Rightarrow> byte) \<Rightarrow> nat \<Rightarrow> byte list" where
  "fastrand_Read rnd n = map rnd [0..<n]"

text \<open>
  The first segment index of a chunk, \<^verbatim>\<open>uint64(chunkIndex * proto.SegmentsPerSector)\<close>:
  the product is taken in \<^verbatim>\<open>int64\<close> and wraps; the conversion to \<^verbatim>\<open>uint64\<close> keeps the bits.
\<close>

definition startIndex :: "64 word \<Rightarrow> 64 word" where
  "startIndex chunkIndex = chunkIndex * of_nat SegmentsPerSector"

definition padding_of :: "nat \<Rightarrow> nat" where
  "padding_of n = (let md = n mod SegmentSize in if md \<noteq> 0 then SegmentSize - md else 0)"

text \<open>
  \<^verbatim>\<open>SectorBuilder.Append\<close>. The cipher \<open>EncryptSegments key plaintext startIndex\<close> and the
  hash \<open>HashBytes\<close> are parameters. The result pairs the panic, if any, with the builder as
  the call leaves it. Slicing \<^verbatim>\<open>sb.sector[sb.sectorLen:][:len(data)+padding]\<close> panics when
  out of bounds. The fresh slice's \<open>MerkleRoot\<close> is the zero hash.
\<close>

definition Append ::
  "(EncryptionKey \<Rightarrow> byte list \<Rightarrow> 64 word \<Rightarrow> byte list) \<Rightarrow> (byte list \<Rightarrow> Hash) \<Rightarrow> (nat \<Rightarrow> byte) \<Rightarrow>
   byte list \<Rightarrow> EncryptionKey \<Rightarrow> 64 word \<Rightarrow> SectorBuilder \<Rightarrow> panic option \<times> SectorBuilder" where
  "Append EncryptSegments HashBytes rnd data key chunkIndex sb =
     (let padding = padding_of (length data)
      in if sectorLen sb + length data + padding > SectorSize
         then (Some (PanicMsg ''data exceeds sector size''), sb)
         else if sectorLen sb > length (sector sb)
         then (Some SliceBoundsOutOfRange, sb)
         else if length data + padding > length (sector sb) - sectorLen sb
         then (Some SliceBoundsOutOfRange, sb)
         else
           let sectorSlice0 = take (length data + padding) (drop (sectorLen sb) (sector sb));
               sectorSlice1 = copy_slice sectorSlice0 data;
               sectorSlice2 = take (length data) sectorSlice1 @
                              fastrand_Read rnd (length sectorSlice1 - length data);
               sectorSlice3 = copy_slice sectorSlice2
                                (EncryptSegments key sectorSlice2 (startIndex chunkIndex))
           in (None,
               sb\<lparr>sector := take (sectorLen sb) (sector sb) @ sectorSlice3 @
                              drop (sectorLen sb + length sectorSlice3) (sector sb),
                  slices := slices sb @
                              [\<lparr>Offset = of_nat (sectorLen sb),
                                Length = of_nat (length data),
                                Checksum = HashBytes data,
                                MerkleRoot = replicate 32 0\<rparr>],
                  sectorLen := sectorLen sb + length sectorSlice3\<rparr>))"

definition Len :: "SectorBuilder \<Rightarrow> nat" where
  "Len sb = sectorLen sb"

definition Remaining :: "SectorBuilder \<Rightarrow> int" where
  "Remaining sb = int (length (sector sb)) - int (sectorLen sb)"

text \<open>
  \<^verbatim>\<open>SectorBuilder.Finish\<close> returns the sector (the Go code returns a pointer to it) and the
  builder; \<open>SectorMerkleRoot\<close> is a parameter.
\<close>

definition Finish ::
  "(byte list \<Rightarrow> Hash) \<Rightarrow> (nat \<Rightarrow> byte) \<Rightarrow> SectorBuilder \<Rightarrow> panic + (byte list \<times> SectorBuilder)" where
  "Finish SectorMerkleRoot rnd sb =
     (if sectorLen sb > length (sector sb) then Inl SliceBoundsOutOfRange
      else
        let sector' = take (sectorLen sb) (sector sb) @
                      fastrand_Read rnd (length (sector sb) - sectorLen sb);
            sectorRoot = SectorMerkleRoot sector'
        in Inr (sector',
                sb\<lparr>sector := sector',
                   sectorLen := length sector',
                   slices := map (\<lambda>s. s\<lparr>MerkleRoot := sectorRoot\<rparr>) (slices sb)\<rparr>))"

definition Slices :: "SectorBuilder \<Rightarrow> SectorSlice list" where
  "Slices sb = slices sb"

text \<open>
  A sequence of \<^verbatim>\<open>Append\<close> calls on one builder, each with its own data, key, chunk index
  and random bytes; the sequence stops at the first panic.
\<close>

fun AppendAll ::
  "(EncryptionKey \<Rightarrow> byte list \<Rightarrow> 64 word \<Rightarrow> byte list) \<Rightarrow> (byte list \<Rightarrow> Hash) \<Rightarrow>
   ((nat \<Rightarrow> byte) \<times> byte list \<times> EncryptionKey \<times> 64 word) list \<Rightarrow> SectorBuilder \<Rightarrow>
   panic option \<times> SectorBuilder" where
  "AppendAll E H [] sb = (None, sb)"
| "AppendAll E H ((rnd, data, key, chunkIndex) # calls) sb =
     (case Append E H rnd data key chunkIndex sb of
        (Some p, sb') \<Rightarrow> (Some p, sb')
      | (None, sb') \<Rightarrow> AppendAll E H calls sb')"

text \<open>
  Modelled from the spec: \<^verbatim>\<open>EncryptionKey.EncryptSegments\<close> is defined outside the sources
  read here; the spec has the cipher segment-indexed, \<^verbatim>\<open>encrypt(data, segment_index)\<close> with
  the data a whole number of 64-byte segments. A call
  \<^verbatim>\<open>EncryptSegments(ciphertext, plaintext, startIndex)\<close> therefore uses one index for each
  segment of \<open>plaintext\<close>: \<open>startIndex\<close> and its successors. Which plaintext and which
  start index a call receives is for its caller to decide; the function below takes both as
  arguments.
\<close>

definition segmentIndices :: "64 word \<Rightarrow> nat \<Rightarrow> 64 word list" where
  "segmentIndices start n = map (\<lambda>k. start + of_nat k) [0..<n]"

definition EncryptSegments_indices :: "byte list \<Rightarrow> 64 word \<Rightarrow> 64 word list" where
  "EncryptSegments_indices plaintext start =
     segmentIndices start (length plaintext div SegmentSize)"

section \<open>Shard uploader\<close>

text \<open>
  The outcome of a Go call that returns \<^verbatim>\<open>(value, error)\<close> and may panic.
\<close>

datatype 'a result = Return 'a | Fail error | Panic panic

text \<open>
  \<^verbatim>\<open>proto.Uploader\<close> and \<^verbatim>\<open>Shard\<close> are used through one method each, so their states are
  type parameters and the methods \<open>Upload\<close> and \<open>WriteSlice\<close> are parameters of the model.
\<close>

record ('u, 's) ShardUploader =
  Uploader :: 'u
  Shard :: 's
  Key :: EncryptionKey
  sb :: SectorBuilder

definition EncryptAndUpload ::
  "(EncryptionKey \<Rightarrow> byte list \<Rightarrow> 64 word \<Rightarrow> byte list) \<Rightarrow> (byte list \<Rightarrow> Hash) \<Rightarrow> (byte list \<Rightarrow> Hash) \<Rightarrow>
   ('u \<Rightarrow> byte list \<Rightarrow> (error + Hash) \<times> 'u) \<Rightarrow>
   ('s \<Rightarrow> SectorSlice \<Rightarrow> 64 word \<Rightarrow> error option \<times> 's) \<Rightarrow>
   (nat \<Rightarrow> byte) \<Rightarrow> (nat \<Rightarrow> byte) \<Rightarrow> byte list \<Rightarrow> 64 word \<Rightarrow> ('u, 's) ShardUploader \<Rightarrow>
   SectorSlice result \<times> ('u, 's) ShardUploader" where
  "EncryptAndUpload EncryptSegments HashBytes SectorMerkleRoot Upload WriteSlice
                    rndPad rndTail data chunkIndex u =
     (if length data > SectorSize then (Fail (ErrorsNew ''data exceeds sector size''), u)
      else
        case Append EncryptSegments HashBytes rndPad data (Key u) chunkIndex (Reset (sb u)) of
          (Some p, sb1) \<Rightarrow> (Panic p, u\<lparr>sb := sb1\<rparr>)
        | (None, sb1) \<Rightarrow>
            (case Finish SectorMerkleRoot rndTail sb1 of
               Inl p \<Rightarrow> (Panic p, u\<lparr>sb := sb1\<rparr>)
             | Inr (sec, sb2) \<Rightarrow>
                 (case Upload (Uploader u) sec of
                    (Inl err, up') \<Rightarrow> (Fail err, u\<lparr>Uploader := up', sb := sb2\<rparr>)
                  | (Inr root, up') \<Rightarrow>
                      (case Slices sb2 of
                         [] \<Rightarrow> (Panic IndexOutOfRange, u\<lparr>Uploader := up', sb := sb2\<rparr>)
                       | ss # _ \<Rightarrow>
                           (case WriteSlice (Shard u) ss chunkIndex of
                              (Some err, sh') \<Rightarrow>
                                (Fail (ErrorsWrap err ''could not write to shard file''),
                                 u\<lparr>Uploader := up', Shard := sh', sb := sb2\<rparr>)
                            | (None, sh') \<Rightarrow>
                                (Return ss, u\<lparr>Uploader := up', Shard := sh', sb := sb2\<rparr>))))))"

section \<open>The connection to the host\<close>

text \<open>
  Modelled from the spec: the type \<^verbatim>\<open>hostdb.HostSettings\<close> is declared outside the sources
  read here; the spec lists what the signed record carries at least: network address,
  accepting-contracts flag, maximum duration, maximum collateral, contract price, storage,
  upload-bandwidth and download-bandwidth prices, window size, sector size and revision
  number.
\<close>

record HostSettings =
  NetAddress :: NetAddress
  AcceptingContracts :: bool
  MaxDuration :: BlockHeight
  MaxCollateral :: Currency
  ContractPrice :: Currency
  StoragePrice :: Currency
  UploadBandwidthPrice :: Currency
  DownloadBandwidthPrice :: Currency
  WindowSize :: BlockHeight
  HostSectorSize :: "64 word"
  SettingsRevisionNumber :: "64 word"

text \<open>
  \<^verbatim>\<open>hostdb.ScannedHost\<close>, as \<^verbatim>\<open>negotiate.go\<close> uses it: the embedded settings
  (\<^verbatim>\<open>host.HostSettings\<close>, whose fields are also read as \<^verbatim>\<open>host.NetAddress\<close> and so on) and the
  host's public key.
\<close>

record ScannedHost =
  HostSettings :: HostSettings
  PublicKey :: "byte list"

record CoveredFields =
  WholeTransaction :: bool
  CoveredFileContractRevisions :: "64 word list"

record TransactionSignature =
  SigParentID :: Hash
  PublicKeyIndex :: "64 word"
  SigTimelock :: BlockHeight
  CoveredFields :: CoveredFields
  Signature :: "byte list"

text \<open>Of \<^verbatim>\<open>types.Transaction\<close> the negotiation fills these two fields; the others stay empty.\<close>

record Transaction =
  FileContractRevisions :: "FileContractRevision list"
  TransactionSignatures :: "TransactionSignature list"

definition emptyTransaction :: Transaction where
  "emptyTransaction = \<lparr>FileContractRevisions = [], TransactionSignatures = []\<rparr>"

text \<open>
  \<^verbatim>\<open>net.Conn\<close> is an interface; the model is a scripted peer. \<open>incoming\<close> holds the objects the
  host sends, in order, each with the length of its encoding; \<open>outgoing\<close> collects what the
  renter wrote; \<open>writeErrs\<close> scripts the outcome of the successive writes (a write beyond the
  script succeeds); \<open>deadline\<close> is the last deadline set, \<open>closed\<close> whether the renter closed
  the connection.
\<close>

datatype object =
    ObjSpecifier string
  | ObjHash Hash
  | ObjSignature "byte list"
  | ObjString string
  | ObjRevision FileContractRevision
  | ObjTxnSig TransactionSignature
  | ObjTxnSigs "TransactionSignature list"
  | ObjSignedSettings HostSettings "byte list"

record frame =
  frameLen :: nat
  payload :: object

datatype Duration = NoDeadline | NegotiateRecentRevisionTime | NegotiateSettingsTime | Hour

record conn =
  incoming :: "frame list"
  outgoing :: "object list"
  writeErrs :: "error option list"
  deadline :: Duration
  closed :: bool

definition extendDeadline :: "conn \<Rightarrow> Duration \<Rightarrow> conn" where
  "extendDeadline c d = c\<lparr>deadline := d\<rparr>"

definition Close :: "conn \<Rightarrow> conn" where
  "Close c = c\<lparr>closed := True\<rparr>"

definition WriteObject :: "conn \<Rightarrow> object \<Rightarrow> error option \<times> conn" where
  "WriteObject c obj =
     (case writeErrs c of
        [] \<Rightarrow> (None, c\<lparr>outgoing := outgoing c @ [obj]\<rparr>)
      | None # es \<Rightarrow> (None, c\<lparr>outgoing := outgoing c @ [obj], writeErrs := es\<rparr>)
      | Some e # es \<Rightarrow> (Some e, c\<lparr>writeErrs := es\<rparr>))"

text \<open>
  \<^verbatim>\<open>encoding.ReadObject(conn, &obj, maxLen)\<close> reads the length prefix, fails when it exceeds
  \<open>maxLen\<close>, and decodes the body otherwise. The model counts in whole objects: after a
  prefix that is too long it drops the object, where the code leaves the body unread in the
  stream; every caller gives the connection up after a failed read.
\<close>

definition ReadObject :: "conn \<Rightarrow> nat \<Rightarrow> (error + object) \<times> conn" where
  "ReadObject c maxLen =
     (case incoming c of
        [] \<Rightarrow> (Inl (ErrIO ''EOF''), c)
      | f # fs \<Rightarrow>
          if frameLen f > maxLen then (Inl (ErrIO ''length exceeds maxLen''), c\<lparr>incoming := fs\<rparr>)
          else (Inr (payload f), c\<lparr>incoming := fs\<rparr>))"

definition decodeError :: error where
  "decodeError = ErrIO ''could not decode type''"

definition readHash :: "conn \<Rightarrow> nat \<Rightarrow> (error + Hash) \<times> conn" where
  "readHash c maxLen =
     (case ReadObject c maxLen of
        (Inl e, c') \<Rightarrow> (Inl e, c')
      | (Inr (ObjHash h), c') \<Rightarrow> (Inr h, c')
      | (Inr _, c') \<Rightarrow> (Inl decodeError, c'))"

definition readRevision :: "conn \<Rightarrow> nat \<Rightarrow> (error + FileContractRevision) \<times> conn" where
  "readRevision c maxLen =
     (case ReadObject c maxLen of
        (Inl e, c') \<Rightarrow> (Inl e, c')
      | (Inr (ObjRevision r), c') \<Rightarrow> (Inr r, c')
      | (Inr _, c') \<Rightarrow> (Inl decodeError, c'))"

definition readTxnSigs :: "conn \<Rightarrow> nat \<Rightarrow> (error + TransactionSignature list) \<times> conn" where
  "readTxnSigs c maxLen =
     (case ReadObject c maxLen of
        (Inl e, c') \<Rightarrow> (Inl e, c')
      | (Inr (ObjTxnSigs ss), c') \<Rightarrow> (Inr ss, c')
      | (Inr _, c') \<Rightarrow> (Inl decodeError, c'))"

definition readTxnSig :: "conn \<Rightarrow> nat \<Rightarrow> (error + TransactionSignature) \<times> conn" where
  "readTxnSig c maxLen =
     (case ReadObject c maxLen of
        (Inl e, c') \<Rightarrow> (Inl e, c')
      | (Inr (ObjTxnSig s), c') \<Rightarrow> (Inr s, c')
      | (Inr _, c') \<Rightarrow> (Inl decodeError, c'))"

section \<open>Negotiation\<close>

text \<open>
  The acceptance exchange of the Sia \<^verbatim>\<open>modules\<close> package: a response is a string object,
  \<^verbatim>\<open>"accept"\<close> for an acceptance and \<^verbatim>\<open>"stop"\<close> for a stop; reading any other string yields
  an error made of that string.
\<close>

definition AcceptResponse :: string where
  "AcceptResponse = ''accept''"

definition StopResponse :: string where
  "StopResponse = ''stop''"

definition NegotiateMaxErrorSize :: nat where
  "NegotiateMaxErrorSize = 256"

definition NegotiateMaxHostExternalSettingsLen :: nat where
  "NegotiateMaxHostExternalSettingsLen = 16000"

definition WriteNegotiationAcceptance :: "conn \<Rightarrow> error option \<times> conn" where
  "WriteNegotiationAcceptance c = WriteObject c (ObjString AcceptResponse)"

definition WriteNegotiationStop :: "conn \<Rightarrow> error option \<times> conn" where
  "WriteNegotiationStop c = WriteObject c (ObjString StopResponse)"

definition ReadNegotiationAcceptance :: "conn \<Rightarrow> error option \<times> conn" where
  "ReadNegotiationAcceptance c =
     (case ReadObject c NegotiateMaxErrorSize of
        (Inl e, c') \<Rightarrow> (Some e, c')
      | (Inr (ObjString resp), c') \<Rightarrow>
          (if resp = AcceptResponse then None
           else if resp = StopResponse then Some ErrStopResponse
           else Some (ErrorsNew resp), c')
      | (Inr _, c') \<Rightarrow> (Some decodeError, c'))"

text \<open>
  \<^verbatim>\<open>crypto.ReadSignedObject\<close>: the object and its signature are read and the signature is
  checked against the public key; the check \<open>VerifySettings\<close> is a parameter.
\<close>

definition ReadSignedObject ::
  "(byte list \<Rightarrow> HostSettings \<Rightarrow> byte list \<Rightarrow> bool) \<Rightarrow> conn \<Rightarrow> nat \<Rightarrow> byte list \<Rightarrow>
   (error + HostSettings) \<times> conn" where
  "ReadSignedObject VerifySettings c maxLen pk =
     (case ReadObject c maxLen of
        (Inl e, c') \<Rightarrow> (Inl e, c')
      | (Inr (ObjSignedSettings hs sig), c') \<Rightarrow>
          if VerifySettings pk hs sig then (Inr hs, c')
          else (Inl (ErrorsNew ''invalid signature''), c')
      | (Inr _, c') \<Rightarrow> (Inl decodeError, c'))"

definition verifySettings ::
  "(byte list \<Rightarrow> HostSettings \<Rightarrow> byte list \<Rightarrow> bool) \<Rightarrow> conn \<Rightarrow> ScannedHost \<Rightarrow>
   (error + ScannedHost) \<times> conn" where
  "verifySettings VerifySettings c host =
     (case ReadSignedObject VerifySettings c NegotiateMaxHostExternalSettingsLen (PublicKey host) of
        (Inl e, c') \<Rightarrow> (Inl (ErrorsWrap e ''could not read signed host settings''), c')
      | (Inr recvSettings, c') \<Rightarrow>
          let recvSettings' =
                (if NetAddress recvSettings \<noteq> NetAddress (HostSettings host)
                 then recvSettings\<lparr>NetAddress := NetAddress (HostSettings host)\<rparr>
                 else recvSettings)
          in (Inr (host\<lparr>HostSettings := recvSettings'\<rparr>), c'))"

text \<open>
  \<^verbatim>\<open>startRevision\<close> takes the cached host by pointer; the model returns the error, the
  connection and the cached host as the call leaves them.
\<close>

definition startRevision ::
  "(byte list \<Rightarrow> HostSettings \<Rightarrow> byte list \<Rightarrow> bool) \<Rightarrow> conn \<Rightarrow> ScannedHost \<Rightarrow>
   error option \<times> conn \<times> ScannedHost" where
  "startRevision VerifySettings c host =
     (case verifySettings VerifySettings c host of
        (Inl e, c') \<Rightarrow> (Some e, c', host)
      | (Inr newhost, c') \<Rightarrow>
          if UploadBandwidthPrice (HostSettings newhost) > UploadBandwidthPrice (HostSettings host)
          then (Some (ErrorsNew ''host upload price increased''), c', host)
          else if DownloadBandwidthPrice (HostSettings newhost) >
                  DownloadBandwidthPrice (HostSettings host)
          then (Some (ErrorsNew ''host download price increased''), c', host)
          else if StoragePrice (HostSettings newhost) > StoragePrice (HostSettings host)
          then (Some (ErrorsNew ''host storage price increased''), c', host)
          else (case WriteNegotiationAcceptance c' of (r, c'') \<Rightarrow> (r, c'', newhost)))"

definition terminateRPC ::
  "(byte list \<Rightarrow> HostSettings \<Rightarrow> byte list \<Rightarrow> bool) \<Rightarrow> conn \<Rightarrow> ScannedHost \<Rightarrow> conn" where
  "terminateRPC VerifySettings c host =
     (let c1 = extendDeadline c NegotiateSettingsTime;
          c2 = snd (verifySettings VerifySettings c1 host);
          c3 = snd (WriteNegotiationStop c2)
      in Close c3)"

text \<open>
  Modelled from the spec: the type \<^verbatim>\<open>proto.ContractTransaction\<close> is declared outside the
  sources read here; the spec has the contract store expose \<^verbatim>\<open>id()\<close>, \<^verbatim>\<open>end_height()\<close>,
  \<^verbatim>\<open>current_revision()\<close> and \<^verbatim>\<open>renter_key\<close>, which is how \<^verbatim>\<open>verifyRecentRevision\<close> reads
  it. The model holds what these return.
\<close>

record ContractTransaction =
  ID :: Hash
  EndHeight :: BlockHeight
  CurrentRevision :: FileContractRevision
  RenterKey :: "byte list"

text \<open>\<^verbatim>\<open>crypto.SecureWipe(challenge[:16])\<close> zeroes the first 16 bytes.\<close>

definition SecureWipe16 :: "Hash \<Rightarrow> Hash" where
  "SecureWipe16 challenge = map (\<lambda>_. 0) (take 16 challenge) @ drop 16 challenge"

text \<open>
  \<^verbatim>\<open>verifyRecentRevision\<close>. Parameters: \<open>SignHash\<close> (\<^verbatim>\<open>crypto.SignHash\<close>), \<open>VerifySigs\<close>
  (\<^verbatim>\<open>modules.VerifyFileContractRevisionTransactionSignatures\<close>) and \<open>UnlockHash\<close>
  (\<^verbatim>\<open>UnlockConditions.UnlockHash\<close>).
\<close>

definition verifyRecentRevision ::
  "(Hash \<Rightarrow> byte list \<Rightarrow> byte list) \<Rightarrow>
   (FileContractRevision \<Rightarrow> TransactionSignature list \<Rightarrow> BlockHeight \<Rightarrow> error option) \<Rightarrow>
   (UnlockConditions \<Rightarrow> Hash) \<Rightarrow> conn \<Rightarrow> ContractTransaction \<Rightarrow>
   (error + FileContractRevision \<times> TransactionSignature list) \<times> conn" where
  "verifyRecentRevision SignHash VerifySigs UnlockHash c contract =
     (case WriteObject c (ObjHash (ID contract)) of
        (Some e, c1) \<Rightarrow> (Inl (ErrorsWrap e ''could not send contract ID''), c1)
      | (None, c1) \<Rightarrow>
     (case readHash c1 32 of
        (Inl e, c2) \<Rightarrow> (Inl (ErrorsWrap e ''could not read challenge''), c2)
      | (Inr challenge, c2) \<Rightarrow>
     (case WriteObject c2 (ObjSignature (SignHash (SecureWipe16 challenge) (RenterKey contract))) of
        (Some e, c3) \<Rightarrow> (Inl (ErrorsWrap e ''could not send challenge response''), c3)
      | (None, c3) \<Rightarrow>
     (case ReadNegotiationAcceptance c3 of
        (Some e, c4) \<Rightarrow> (Inl (ErrorsWrap e ''host did not accept revision request''), c4)
      | (None, c4) \<Rightarrow>
     (case readRevision c4 2048 of
        (Inl e, c5) \<Rightarrow> (Inl (ErrorsWrap e ''could not read host revision''), c5)
      | (Inr hostRevision, c5) \<Rightarrow>
     (case readTxnSigs c5 2048 of
        (Inl e, c6) \<Rightarrow> (Inl (ErrorsWrap e ''could not read host signatures''), c6)
      | (Inr hostSignatures, c6) \<Rightarrow>
     (case VerifySigs hostRevision hostSignatures (EndHeight contract - 1) of
        Some e \<Rightarrow> (Inl (ErrorsWrap e ''host sent invalid transaction''), c6)
      | None \<Rightarrow>
          if UnlockHash (RevUnlockConditions hostRevision) \<noteq>
             UnlockHash (RevUnlockConditions (CurrentRevision contract))
          then (Inl (ErrorsNew ''unlock conditions do not match''), c6)
          else (Inr (hostRevision, hostSignatures), c6))))))))"

text \<open>
  \<^verbatim>\<open>initiateRPC\<close>. \<^verbatim>\<open>ContractEditor\<close> is an interface: the contract's state is a type
  parameter and its methods \<open>Transaction\<close> and \<open>SyncWithHost\<close> are parameters, as is the
  dialer. The result pairs the returned connection or error with the contract as the call
  leaves it. The deferred \<^verbatim>\<open>extendDeadline(conn, time.Hour)\<close> runs on every return after
  the dial.
\<close>

definition initiateRPC ::
  "(NetAddress \<Rightarrow> error + conn) \<Rightarrow>
   (Hash \<Rightarrow> byte list \<Rightarrow> byte list) \<Rightarrow>
   (FileContractRevision \<Rightarrow> TransactionSignature list \<Rightarrow> BlockHeight \<Rightarrow> error option) \<Rightarrow>
   (UnlockConditions \<Rightarrow> Hash) \<Rightarrow>
   ('c \<Rightarrow> ContractTransaction) \<Rightarrow>
   ('c \<Rightarrow> FileContractRevision \<Rightarrow> TransactionSignature list \<Rightarrow> error option \<times> 'c) \<Rightarrow>
   NetAddress \<Rightarrow> string \<Rightarrow> 'c \<Rightarrow> (error + conn) \<times> 'c" where
  "initiateRPC DialTimeout SignHash VerifySigs UnlockHash Transaction SyncWithHost addr rpc contract =
     (case DialTimeout addr of
        Inl e \<Rightarrow> (Inl (ErrorsWrap e ''could not dial host''), contract)
      | Inr c0 \<Rightarrow>
     (case WriteObject (extendDeadline c0 NegotiateRecentRevisionTime) (ObjSpecifier rpc) of
        (Some e, c1) \<Rightarrow> (Inl (ErrorsWrap e ''could not initiate RPC''), contract)
      | (None, c1) \<Rightarrow>
     (case verifyRecentRevision SignHash VerifySigs UnlockHash c1 (Transaction contract) of
        (Inl e, c2) \<Rightarrow>
          (Inl (ErrorsWrap e ''could not verify most recent contract revision''), contract)
      | (Inr (hostRev, hostSigs), c2) \<Rightarrow>
     (case SyncWithHost contract hostRev hostSigs of
        (Some e, contract') \<Rightarrow>
          (Inl (ErrorsWrap e ''could not synchronize contract with host''), contract')
      | (None, contract') \<Rightarrow> (Inr (extendDeadline c2 Hour), contract')))))"

text \<open>
  The first lines of \<^verbatim>\<open>negotiateRevision\<close> build a transaction holding the revision and one
  signature entry (parent: the contract, covering revision 0, public key index 0) and sign
  its hash with the renter's key. \<open>SigHash\<close> (\<^verbatim>\<open>Transaction.SigHash\<close>) and \<open>SignHash\<close> are
  parameters.
\<close>

definition renterSignature ::
  "(Transaction \<Rightarrow> nat \<Rightarrow> Hash) \<Rightarrow> (Hash \<Rightarrow> byte list \<Rightarrow> byte list) \<Rightarrow>
   FileContractRevision \<Rightarrow> byte list \<Rightarrow> TransactionSignature" where
  "renterSignature SigHash SignHash rv secretKey =
     (let unsignedSig = \<lparr>SigParentID = ParentID rv,
                         PublicKeyIndex = 0,
                         SigTimelock = 0,
                         CoveredFields = \<lparr>WholeTransaction = False,
                                          CoveredFileContractRevisions = [0]\<rparr>,
                         Signature = []\<rparr>;
          unsignedTxn = \<lparr>FileContractRevisions = [rv], TransactionSignatures = [unsignedSig]\<rparr>;
          encodedSig = SignHash (SigHash unsignedTxn 0) secretKey
      in unsignedSig\<lparr>Signature := encodedSig\<rparr>)"

text \<open>
  \<^verbatim>\<open>negotiateRevision\<close>. \<open>StandaloneValid\<close> (\<^verbatim>\<open>Transaction.StandaloneValid\<close>) is a further
  parameter. The result is the pair the Go function returns, with the connection.
\<close>

definition negotiateRevision ::
  "(Transaction \<Rightarrow> nat \<Rightarrow> Hash) \<Rightarrow> (Hash \<Rightarrow> byte list \<Rightarrow> byte list) \<Rightarrow>
   (Transaction \<Rightarrow> BlockHeight \<Rightarrow> error option) \<Rightarrow>
   conn \<Rightarrow> FileContractRevision \<Rightarrow> byte list \<Rightarrow> (Transaction \<times> error option) \<times> conn" where
  "negotiateRevision SigHash SignHash StandaloneValid c rv secretKey =
     (let renterSig = renterSignature SigHash SignHash rv secretKey;
          signedTxn = \<lparr>FileContractRevisions = [rv], TransactionSignatures = [renterSig]\<rparr>
      in
     (case WriteObject c (ObjRevision rv) of
        (Some e, c1) \<Rightarrow> ((emptyTransaction, Some (ErrorsWrap e ''could not send revision'')), c1)
      | (None, c1) \<Rightarrow>
     (case ReadNegotiationAcceptance c1 of
        (Some e, c2) \<Rightarrow>
          ((emptyTransaction, Some (ErrorsWrap e ''host did not accept revision'')), c2)
      | (None, c2) \<Rightarrow>
     (case WriteObject c2 (ObjTxnSig renterSig) of
        (Some e, c3) \<Rightarrow>
          ((emptyTransaction, Some (ErrorsWrap e ''could not send transaction signature'')), c3)
      | (None, c3) \<Rightarrow>
     (case ReadNegotiationAcceptance c3 of (responseErr, c4) \<Rightarrow>
        if responseErr \<noteq> None \<and> responseErr \<noteq> Some ErrStopResponse
        then ((emptyTransaction,
               Some (ErrorsWrap (the responseErr) ''host did not accept transaction signature'')),
              c4)
        else
     (case readTxnSig c4 16000 of
        (Inl e, c5) \<Rightarrow>
          ((emptyTransaction, Some (ErrorsWrap e ''could not read host's signature'')), c5)
      | (Inr hostSig, c5) \<Rightarrow>
          let verificationHeight = NewWindowStart rv - 1;
              signedTxn' = signedTxn\<lparr>TransactionSignatures :=
                                        TransactionSignatures signedTxn @ [hostSig]\<rparr>
          in (case StandaloneValid signedTxn' verificationHeight of
                Some e \<Rightarrow>
                  ((emptyTransaction, Some (ErrorsWrap e ''negotiated transaction is invalid'')),
                   c5)
              | None \<Rightarrow> ((signedTxn', responseErr), c5))))))))"

section \<open>The specification's vocabulary for the sector builder\<close>

text \<open>
  These definitions follow the specification's words, to be compared with the code:
  \<open>round_up n k\<close> is \<open>n\<close> rounded up to the next multiple of \<open>k\<close>; \<open>recorded H off ds\<close>
  lists, for data appended in the order \<open>ds\<close> to a builder of length \<open>off\<close>, the offset,
  length and checksum the specification gives each slice; \<open>slice_view\<close> reads the same
  three components off a slice of the code.
\<close>

definition round_up :: "nat \<Rightarrow> nat \<Rightarrow> nat" where
  "round_up n k = ((n + k - 1) div k) * k"

fun recorded :: "(byte list \<Rightarrow> Hash) \<Rightarrow> nat \<Rightarrow> byte list list \<Rightarrow> (nat \<times> nat \<times> Hash) list" where
  "recorded H off [] = []"
| "recorded H off (d # ds) =
     (off, length d, H d) # recorded H (off + round_up (length d) SegmentSize) ds"

definition slice_view :: "SectorSlice \<Rightarrow> nat \<times> nat \<times> Hash" where
  "slice_view s = (unat (Offset s), unat (Length s), Checksum s)"

definition call_data :: "(nat \<Rightarrow> byte) \<times> byte list \<times> EncryptionKey \<times> 64 word \<Rightarrow> byte list" where
  "call_data call = fst (snd call)"

section \<open>Sample values\<close>

definition sampleRevision :: FileContractRevision where
  "sampleRevision =
     \<lparr>ParentID = [1], RevUnlockConditions = \<lparr>Timelock = 0, PublicKeys = [[7], [8]],
                                               SignaturesRequired = 2\<rparr>,
      NewRevisionNumber = 4, NewFileSize = 8388608, NewFileMerkleRoot = [9],
      NewWindowStart = 1000, NewWindowEnd = 1144,
      NewValidProofOutputs = [\<lparr>Value = 100, OutputUnlockHash = [1]\<rparr>,
                              \<lparr>Value = 50, OutputUnlockHash = [2]\<rparr>],
      NewMissedProofOutputs = [\<lparr>Value = 100, OutputUnlockHash = [1]\<rparr>,
                               \<lparr>Value = 40, OutputUnlockHash = [2]\<rparr>,
                               \<lparr>Value = 10, OutputUnlockHash = []\<rparr>],
      NewUnlockHash = [3]\<rparr>"

text \<open>The zero value of a \<^verbatim>\<open>SectorBuilder\<close>: an empty sector.\<close>

definition zeroSectorBuilder :: SectorBuilder where
  "zeroSectorBuilder = \<lparr>sector = replicate SectorSize 0, sectorLen = 0, slices = []\<rparr>"

text \<open>Stand-ins for the cipher, the hash, the Merkle root and the random generator.\<close>

definition sampleCipher :: "EncryptionKey \<Rightarrow> byte list \<Rightarrow> 64 word \<Rightarrow> byte list" where
  "sampleCipher key plaintext start = map (\<lambda>x. x + 1) plaintext"

definition sampleHash :: "byte list \<Rightarrow> Hash" where
  "sampleHash d = [of_nat (length d), of_nat (sum_list (map unat d))]"

definition sampleRoot :: "byte list \<Rightarrow> Hash" where
  "sampleRoot sec = take 4 sec"

definition sampleRnd :: "nat \<Rightarrow> byte" where
  "sampleRnd k = of_nat (3 * k + 1)"


definition sampleUploadFail :: "nat \<Rightarrow> byte list \<Rightarrow> (error + Hash) \<times> nat" where
  "sampleUploadFail up sec = (Inl (ErrIO ''host unreachable''), up)"

definition sampleUploadOk :: "nat \<Rightarrow> byte list \<Rightarrow> (error + Hash) \<times> nat" where
  "sampleUploadOk up sec = (Inr (sampleRoot sec), Suc up)"

definition sampleWriteSlice ::
  "(64 word \<times> SectorSlice) list \<Rightarrow> SectorSlice \<Rightarrow> 64 word \<Rightarrow> error option \<times> (64 word \<times> SectorSlice) list" where
  "sampleWriteSlice sh ss chunkIndex = (None, (chunkIndex, ss) # sh)"

definition sampleShardUploader :: "(nat, (64 word \<times> SectorSlice) list) ShardUploader" where
  "sampleShardUploader = \<lparr>Uploader = 0, Shard = [], Key = [1], sb = zeroSectorBuilder\<rparr>"

definition sampleSettings :: HostSettings where
  "sampleSettings =
     \<lparr>NetAddress = ''host.example:9982'', AcceptingContracts = True, MaxDuration = 1000,
      MaxCollateral = 500, ContractPrice = 5, StoragePrice = 10, UploadBandwidthPrice = 3,
      DownloadBandwidthPrice = 4, WindowSize = 144, HostSectorSize = 4194304,
      SettingsRevisionNumber = 7\<rparr>"

definition sampleHost :: ScannedHost where
  "sampleHost = \<lparr>HostSettings = sampleSettings, PublicKey = [9]\<rparr>"

definition sampleVerify :: "byte list \<Rightarrow> HostSettings \<Rightarrow> byte list \<Rightarrow> bool" where
  "sampleVerify pk hs sg = (sg = pk)"

definition sampleConn :: "frame list \<Rightarrow> conn" where
  "sampleConn frames =
     \<lparr>incoming = frames, outgoing = [], writeErrs = [], deadline = NoDeadline, closed = False\<rparr>"

definition sampleSigHash :: "Transaction \<Rightarrow> nat \<Rightarrow> Hash" where
  "sampleSigHash txn i = ParentID (hd (FileContractRevisions txn)) @ [of_nat i]"

definition sampleSignHash :: "Hash \<Rightarrow> byte list \<Rightarrow> byte list" where
  "sampleSignHash h key = key @ h"

definition sampleStandaloneValid :: "Transaction \<Rightarrow> BlockHeight \<Rightarrow> error option" where
  "sampleStandaloneValid txn height =
     (if height = 999 \<and> length (TransactionSignatures txn) = 2 then None
      else Some (ErrorsNew ''invalid transaction''))"

definition sampleHostSig :: TransactionSignature where
  "sampleHostSig =
     \<lparr>SigParentID = [1], PublicKeyIndex = 1, SigTimelock = 0,
      CoveredFields = \<lparr>WholeTransaction = False, CoveredFileContractRevisions = [0]\<rparr>,
      Signature = [8, 8]\<rparr>"

definition sampleRenterSig :: TransactionSignature where
  "sampleRenterSig = renterSignature sampleSigHash sampleSignHash sampleRevision [5]"

definition sampleContract :: ContractTransaction where
  "sampleContract =
     \<lparr>ID = [1], EndHeight = 1000, CurrentRevision = sampleRevision, RenterKey = [5]\<rparr>"

definition sampleUnlockHash :: "UnlockConditions \<Rightarrow> Hash" where
  "sampleUnlockHash uc = concat (PublicKeys uc)"

definition sampleVerifySigs ::
  "FileContractRevision \<Rightarrow> TransactionSignature list \<Rightarrow> BlockHeight \<Rightarrow> error option" where
  "sampleVerifySigs rv sigs height =
     (if height = 999 then None else Some (ErrorsNew ''invalid signatures''))"

definition sampleSyncWithHost ::
  "ContractTransaction \<Rightarrow> FileContractRevision \<Rightarrow> TransactionSignature list \<Rightarrow>
   error option \<times> ContractTransaction" where
  "sampleSyncWithHost contract rv sigs = (None, contract\<lparr>CurrentRevision := rv\<rparr>)"

definition sampleTransaction :: "ContractTransaction \<Rightarrow> ContractTransaction" where
  "sampleTransaction contract = contract"

definition sampleDial :: "frame list \<Rightarrow> NetAddress \<Rightarrow> error + conn" where
  "sampleDial frames addr =
     (if addr = ''host.example:9982'' then Inr (sampleConn frames) else Inl (ErrIO ''dial timeout''))"

definition sampleForeignRevision :: FileContractRevision where
  "sampleForeignRevision =
     sampleRevision\<lparr>RevUnlockConditions :=
                      \<lparr>Timelock = 0, PublicKeys = [[7], [66]], SignaturesRequired = 2\<rparr>,
                    NewRevisionNumber := 9\<rparr>"

definition sampleHandshake :: "FileContractRevision \<Rightarrow> frame list" where
  "sampleHandshake hostRev =
     [\<lparr>frameLen = 32, payload = ObjHash (replicate 32 3)\<rparr>,
      \<lparr>frameLen = 6, payload = ObjString ''accept''\<rparr>,
      \<lparr>frameLen = 400, payload = ObjRevision hostRev\<rparr>,
      \<lparr>frameLen = 250, payload = ObjTxnSigs [sampleHostSig]\<rparr>]"

section \<open>Theorems\<close>

lemma newRevision_two_three:
  assumes "NewValidProofOutputs cur = [vr, vh]"
      and "NewMissedProofOutputs cur = [mr, mh, mv]"
      and "cost \<le> Value vr" and "cost \<le> Value mr"
  shows "newRevision cur cost =
           Inr (cur\<lparr>NewValidProofOutputs :=
                       [vr\<lparr>Value := Value vr - cost\<rparr>, vh\<lparr>Value := Value vh + cost\<rparr>],
                    NewMissedProofOutputs :=
                       [mr\<lparr>Value := Value mr - cost\<rparr>, mh, mv\<lparr>Value := Value mv + cost\<rparr>],
                    NewRevisionNumber := NewRevisionNumber cur + 1\<rparr>)"
  using assms
  by (simp add: newRevision_def copy_slice_def Currency_Sub_def Currency_Add_def Let_def)

lemma newUploadRevision_two_three:
  assumes "NewValidProofOutputs cur = [vr, vh]"
      and "NewMissedProofOutputs cur = [mr, mh, mv]"
      and "cost \<le> Value vr" and "cost \<le> Value mr" and "collateral \<le> Value mh"
  shows "newUploadRevision cur root cost collateral =
           Inr (cur\<lparr>NewValidProofOutputs :=
                       [vr\<lparr>Value := Value vr - cost\<rparr>, vh\<lparr>Value := Value vh + cost\<rparr>],
                    NewMissedProofOutputs :=
                       [mr\<lparr>Value := Value mr - cost\<rparr>,
                        mh\<lparr>Value := Value mh - collateral\<rparr>,
                        mv\<lparr>Value := Value mv + cost + collateral\<rparr>],
                    NewRevisionNumber := NewRevisionNumber cur + 1,
                    NewFileSize := NewFileSize cur + 4194304,
                    NewFileMerkleRoot := root\<rparr>)"
  using assms(5)
  by (simp add: newUploadRevision_def newRevision_two_three [OF assms(1-4)]
      Currency_Sub_def Currency_Add_def Let_def SectorSize_def)


subsection \<open>C1: what a revision step changes\<close>

text \<open>
  C1. A contract revision has two valid-proof outputs (renter, host) and three missed-proof
  outputs (renter, host, void). When the renter's valid and missed outputs are at least
  \<open>cost\<close>, \<open>newRevision\<close> (and \<open>newDownloadRevision\<close>) returns the current revision with the
  renter's valid output decremented by \<open>cost\<close>, the host's valid output incremented by
  \<open>cost\<close>, \<open>cost\<close> moved from the renter's missed output to the void missed output, and the
  revision number incremented. When the host's missed output is also at least
  \<open>collateral\<close>, \<open>newUploadRevision\<close> additionally moves \<open>collateral\<close> from the host's
  missed output to the void missed output, adds \<open>SectorSize\<close> to the file size and sets
  the file Merkle root to the supplied root.
\<close>

theorem newRevision_transfers:
  assumes "NewValidProofOutputs cur = [vr, vh]"
      and "NewMissedProofOutputs cur = [mr, mh, mv]"
      and "cost \<le> Value vr" and "cost \<le> Value mr"
  shows "newRevision cur cost =
           Inr (cur\<lparr>NewValidProofOutputs :=
                       [vr\<lparr>Value := Value vr - cost\<rparr>, vh\<lparr>Value := Value vh + cost\<rparr>],
                    NewMissedProofOutputs :=
                       [mr\<lparr>Value := Value mr - cost\<rparr>, mh, mv\<lparr>Value := Value mv + cost\<rparr>],
                    NewRevisionNumber := NewRevisionNumber cur + 1\<rparr>)
       \<and> newDownloadRevision cur cost = newRevision cur cost
       \<and> (collateral \<le> Value mh \<longrightarrow>
            newUploadRevision cur root cost collateral =
              Inr (cur\<lparr>NewValidProofOutputs :=
                          [vr\<lparr>Value := Value vr - cost\<rparr>, vh\<lparr>Value := Value vh + cost\<rparr>],
                       NewMissedProofOutputs :=
                          [mr\<lparr>Value := Value mr - cost\<rparr>,
                           mh\<lparr>Value := Value mh - collateral\<rparr>,
                           mv\<lparr>Value := Value mv + cost + collateral\<rparr>],
                       NewRevisionNumber := NewRevisionNumber cur + 1,
                       NewFileSize := NewFileSize cur + of_nat SectorSize,
                       NewFileMerkleRoot := root\<rparr>))"
proof (intro conjI impI)
  show "newRevision cur cost =
           Inr (cur\<lparr>NewValidProofOutputs :=
                       [vr\<lparr>Value := Value vr - cost\<rparr>, vh\<lparr>Value := Value vh + cost\<rparr>],
                    NewMissedProofOutputs :=
                       [mr\<lparr>Value := Value mr - cost\<rparr>, mh, mv\<lparr>Value := Value mv + cost\<rparr>],
                    NewRevisionNumber := NewRevisionNumber cur + 1\<rparr>)"
    by (rule newRevision_two_three [OF assms])
next
  show "newDownloadRevision cur cost = newRevision cur cost"
    by (simp add: newDownloadRevision_def)
next
  assume "collateral \<le> Value mh"
  from newUploadRevision_two_three [OF assms this, of root]
  show "newUploadRevision cur root cost collateral =
              Inr (cur\<lparr>NewValidProofOutputs :=
                          [vr\<lparr>Value := Value vr - cost\<rparr>, vh\<lparr>Value := Value vh + cost\<rparr>],
                       NewMissedProofOutputs :=
                          [mr\<lparr>Value := Value mr - cost\<rparr>,
                           mh\<lparr>Value := Value mh - collateral\<rparr>,
                           mv\<lparr>Value := Value mv + cost + collateral\<rparr>],
                       NewRevisionNumber := NewRevisionNumber cur + 1,
                       NewFileSize := NewFileSize cur + of_nat SectorSize,
                       NewFileMerkleRoot := root\<rparr>)"
    by (simp add: SectorSize_def)
qed

theorem newRevision_transfers_witness:
  "newRevision sampleRevision 30 =
     Inr (sampleRevision\<lparr>NewValidProofOutputs := [\<lparr>Value = 70, OutputUnlockHash = [1]\<rparr>,
                                                 \<lparr>Value = 80, OutputUnlockHash = [2]\<rparr>],
                         NewMissedProofOutputs := [\<lparr>Value = 70, OutputUnlockHash = [1]\<rparr>,
                                                  \<lparr>Value = 40, OutputUnlockHash = [2]\<rparr>,
                                                  \<lparr>Value = 40, OutputUnlockHash = []\<rparr>],
                         NewRevisionNumber := 5\<rparr>)
   \<and> newUploadRevision sampleRevision [6] 30 15 =
     Inr (sampleRevision\<lparr>NewValidProofOutputs := [\<lparr>Value = 70, OutputUnlockHash = [1]\<rparr>,
                                                 \<lparr>Value = 80, OutputUnlockHash = [2]\<rparr>],
                         NewMissedProofOutputs := [\<lparr>Value = 70, OutputUnlockHash = [1]\<rparr>,
                                                  \<lparr>Value = 25, OutputUnlockHash = [2]\<rparr>,
                                                  \<lparr>Value = 55, OutputUnlockHash = []\<rparr>],
                         NewRevisionNumber := 5,
                         NewFileSize := 12582912,
                         NewFileMerkleRoot := [6]\<rparr>)"
  using newRevision_transfers [of sampleRevision
          "\<lparr>Value = 100, OutputUnlockHash = [1]\<rparr>" "\<lparr>Value = 50, OutputUnlockHash = [2]\<rparr>"
          "\<lparr>Value = 100, OutputUnlockHash = [1]\<rparr>" "\<lparr>Value = 40, OutputUnlockHash = [2]\<rparr>"
          "\<lparr>Value = 10, OutputUnlockHash = []\<rparr>" 30 15 "[6]"]
  by (simp add: sampleRevision_def SectorSize_def)

subsection \<open>C2: coin conservation\<close>

text \<open>
  C2. Under the same preconditions the revision step returns, and the revision it returns
  has the same total of valid outputs and the same total of missed outputs as the current
  one: coins are only moved between outputs.
\<close>

theorem revision_conserves_coins:
  assumes "NewValidProofOutputs cur = [vr, vh]"
      and "NewMissedProofOutputs cur = [mr, mh, mv]"
      and "cost \<le> Value vr" and "cost \<le> Value mr"
  shows "(\<exists>rv. newRevision cur cost = Inr rv
            \<and> sum_list (map Value (NewValidProofOutputs rv)) =
              sum_list (map Value (NewValidProofOutputs cur))
            \<and> sum_list (map Value (NewMissedProofOutputs rv)) =
              sum_list (map Value (NewMissedProofOutputs cur)))
       \<and> (collateral \<le> Value mh \<longrightarrow>
           (\<exists>rv. newUploadRevision cur root cost collateral = Inr rv
            \<and> sum_list (map Value (NewValidProofOutputs rv)) =
              sum_list (map Value (NewValidProofOutputs cur))
            \<and> sum_list (map Value (NewMissedProofOutputs rv)) =
              sum_list (map Value (NewMissedProofOutputs cur))))"
proof (intro conjI impI)
  show "\<exists>rv. newRevision cur cost = Inr rv
            \<and> sum_list (map Value (NewValidProofOutputs rv)) =
              sum_list (map Value (NewValidProofOutputs cur))
            \<and> sum_list (map Value (NewMissedProofOutputs rv)) =
              sum_list (map Value (NewMissedProofOutputs cur))"
    using assms by (simp add: newRevision_two_three [OF assms])
next
  assume k: "collateral \<le> Value mh"
  show "\<exists>rv. newUploadRevision cur root cost collateral = Inr rv
            \<and> sum_list (map Value (NewValidProofOutputs rv)) =
              sum_list (map Value (NewValidProofOutputs cur))
            \<and> sum_list (map Value (NewMissedProofOutputs rv)) =
              sum_list (map Value (NewMissedProofOutputs cur))"
    using assms k by (simp add: newUploadRevision_two_three [OF assms k])
qed

theorem revision_conserves_coins_witness:
  "(\<exists>rv. newRevision sampleRevision 30 = Inr rv
        \<and> sum_list (map Value (NewValidProofOutputs rv)) = 150
        \<and> sum_list (map Value (NewMissedProofOutputs rv)) = 150)
   \<and> (\<exists>rv. newUploadRevision sampleRevision [6] 30 15 = Inr rv
        \<and> sum_list (map Value (NewValidProofOutputs rv)) = 150
        \<and> sum_list (map Value (NewMissedProofOutputs rv)) = 150)"
  using revision_conserves_coins [of sampleRevision
          "\<lparr>Value = 100, OutputUnlockHash = [1]\<rparr>" "\<lparr>Value = 50, OutputUnlockHash = [2]\<rparr>"
          "\<lparr>Value = 100, OutputUnlockHash = [1]\<rparr>" "\<lparr>Value = 40, OutputUnlockHash = [2]\<rparr>"
          "\<lparr>Value = 10, OutputUnlockHash = []\<rparr>" 30 15 "[6]"]
  by (simp add: sampleRevision_def)


subsection \<open>Sector builder: helper lemmas\<close>

lemma ru0: "(n::nat) mod 64 = 0 \<Longrightarrow> (n + 63) div 64 * 64 = n"
proof -
  assume a: "n mod 64 = 0"
  then obtain q where q: "n = 64 * q" by auto
  have "(64 * q + 63) div 64 = q" by simp
  then show ?thesis using q by simp
qed

lemma ru1: "(n::nat) mod 64 \<noteq> 0 \<Longrightarrow> (n + 63) div 64 * 64 = n + (64 - n mod 64)"
proof -
  assume a: "n mod 64 \<noteq> 0"
  define q where "q = n div 64"
  define r where "r = n mod 64"
  have n: "n = 64 * q + r" by (simp add: q_def r_def)
  have r: "0 < r" "r < 64" using a by (simp_all add: r_def)
  have "64 * q + r + 63 = (r - 1) + (q + 1) * 64" using r by simp
  moreover have "((r - 1) + (q + 1) * 64) div 64 = q + 1"
    using r by simp
  ultimately have "(n + 63) div 64 = q + 1" using n by simp
  moreover have "n mod 64 = r" by (simp add: r_def)
  ultimately show ?thesis using n r by simp
qed

lemma padded_round_up: "n + padding_of n = round_up n SegmentSize"
proof -
  have ru: "round_up n SegmentSize = (n + 63) div 64 * 64"
    by (simp add: round_up_def SegmentSize_def)
  have pd: "padding_of n = (if n mod 64 \<noteq> 0 then 64 - n mod 64 else 0)"
    by (simp add: padding_of_def SegmentSize_def Let_def)
  show ?thesis
  proof (cases "n mod 64 = 0")
    case True
    then show ?thesis using ru0 [of n] by (simp only: ru pd) simp
  next
    case False
    then show ?thesis using ru1 [of n] by (simp only: ru pd) simp
  qed
qed

lemma length_copy_slice: "length (copy_slice dst src) = length dst"
  by (simp add: copy_slice_def)

lemma length_fastrand_Read: "length (fastrand_Read rnd n) = n"
  by (simp add: fastrand_Read_def)

lemma Append_panic_unchanged: "Append E H rnd data key ci b = (Some p, b') \<Longrightarrow> b' = b"
  by (auto simp: Append_def Let_def split: if_splits)

lemma Append_None:
  assumes "Append E H rnd data key ci b = (None, b')"
  shows "slices b' = slices b @ [\<lparr>Offset = of_nat (sectorLen b), Length = of_nat (length data),
                                  Checksum = H data, MerkleRoot = replicate 32 0\<rparr>]"
    and "sectorLen b' = sectorLen b + round_up (length data) SegmentSize"
    and "length (sector b') = length (sector b)"
    and "sectorLen b' \<le> SectorSize"
    and "sectorLen b' \<le> length (sector b')"
  using assms
  by (auto simp: Append_def Let_def length_copy_slice length_fastrand_Read
      padded_round_up [symmetric] split: if_splits)

lemma Append_total:
  assumes "length (sector b) = SectorSize"
      and "sectorLen b + round_up (length data) SegmentSize \<le> SectorSize"
  shows "fst (Append E H rnd data key ci b) = None"
  using assms
  by (auto simp: Append_def Let_def padded_round_up [symmetric])

lemma Append_slice_view:
  assumes "Append E H rnd data key ci b = (None, b')"
  shows "map slice_view (slices b') = map slice_view (slices b) @ [(sectorLen b, length data, H data)]"
proof -
  have le: "sectorLen b + round_up (length data) SegmentSize \<le> SectorSize"
    using Append_None(2,4) [OF assms] by simp
  have "length data \<le> round_up (length data) SegmentSize"
    using padded_round_up [of "length data"] by linarith
  with le have "sectorLen b < 2 ^ 32" "length data < 2 ^ 32"
    by (simp_all add: SectorSize_def)
  then have "unat (of_nat (sectorLen b) :: 32 word) = sectorLen b"
            "unat (of_nat (length data) :: 32 word) = length data"
    by (simp_all add: of_nat_inverse)
  then show ?thesis
    by (simp add: Append_None(1) [OF assms] slice_view_def)
qed

lemma AppendAll_None:
  "AppendAll E H calls b = (None, b') \<Longrightarrow>
     map slice_view (slices b') =
       map slice_view (slices b) @ recorded H (sectorLen b) (map call_data calls)
     \<and> sectorLen b' = sectorLen b + sum_list (map (\<lambda>c. round_up (length (call_data c)) SegmentSize) calls)
     \<and> length (slices b') = length (slices b) + length calls
     \<and> length (sector b') = length (sector b)
     \<and> (sectorLen b \<le> length (sector b) \<longrightarrow> sectorLen b' \<le> length (sector b'))"
proof (induction calls arbitrary: b)
  case Nil
  then show ?case by simp
next
  case (Cons call calls)
  obtain rnd data key ci where call: "call = (rnd, data, key, ci)"
    by (cases call) auto
  from Cons.prems call obtain b1 where
    a: "Append E H rnd data key ci b = (None, b1)" and r: "AppendAll E H calls b1 = (None, b')"
    by (auto split: prod.splits option.splits)
  from Cons.IH [OF r] Append_None [OF a] Append_slice_view [OF a]
  show ?case by (simp add: call call_data_def add.assoc)
qed

lemma Finish_Inr:
  assumes "Finish M rnd b = Inr (sec, b')"
  shows "slices b' = map (\<lambda>s. s\<lparr>MerkleRoot := M sec\<rparr>) (slices b)"
    and "sector b' = sec" and "length sec = length (sector b)" and "sectorLen b' = length sec"
  using assms
  by (auto simp: Finish_def Let_def length_fastrand_Read split: if_splits)

lemma Finish_total: "sectorLen b \<le> length (sector b) \<Longrightarrow> \<exists>sec b'. Finish M rnd b = Inr (sec, b')"
  by (simp add: Finish_def Let_def)

lemma slice_view_MerkleRoot: "slice_view (s\<lparr>MerkleRoot := r\<rparr>) = slice_view s"
  by (simp add: slice_view_def)


subsection \<open>C3: overflow\<close>

text \<open>
  C3. Whenever the builder's length plus the data length rounded up to the next segment
  boundary exceeds \<open>SectorSize\<close>, \<open>Append\<close> fails (the Go code panics with "data exceeds
  sector size") and leaves the builder as it was. In particular, 4 MiB + 1 bytes appended to
  an empty builder (length 0) in one call fail so.
\<close>

theorem Append_overflow:
  "(SectorSize < sectorLen b + round_up (length data) SegmentSize \<longrightarrow>
      Append E H rnd data key chunkIndex b = (Some (PanicMsg ''data exceeds sector size''), b))
   \<and> (sectorLen b = 0 \<and> length data = 4 * 1024 * 1024 + 1 \<longrightarrow>
      Append E H rnd data key chunkIndex b = (Some (PanicMsg ''data exceeds sector size''), b))"
proof -
  have ovf: "Append E H rnd data key chunkIndex b = (Some (PanicMsg ''data exceeds sector size''), b)"
    if "SectorSize < sectorLen b + round_up (length data) SegmentSize"
    using that by (simp add: Append_def Let_def padded_round_up [symmetric] add.assoc)
  have "SectorSize < sectorLen b + round_up (length data) SegmentSize"
    if "sectorLen b = 0" and "length data = 4 * 1024 * 1024 + 1"
  proof -
    have "length data \<le> round_up (length data) SegmentSize"
      using padded_round_up [of "length data"] by linarith
    with that show ?thesis by (simp add: SectorSize_def)
  qed
  with ovf show ?thesis by blast
qed

theorem Append_overflow_witness:
  "Append sampleCipher sampleHash sampleRnd (replicate 65 7) [1] 0
          (zeroSectorBuilder\<lparr>sectorLen := 4194240\<rparr>) =
     (Some (PanicMsg ''data exceeds sector size''), zeroSectorBuilder\<lparr>sectorLen := 4194240\<rparr>)
   \<and> Append sampleCipher sampleHash sampleRnd (replicate 4194305 7) [1] 0 zeroSectorBuilder =
     (Some (PanicMsg ''data exceeds sector size''), zeroSectorBuilder)"
  using Append_overflow [of "zeroSectorBuilder\<lparr>sectorLen := 4194240\<rparr>" "replicate 65 7"
          sampleCipher sampleHash sampleRnd "[1]" 0]
        Append_overflow [of zeroSectorBuilder "replicate 4194305 7"
          sampleCipher sampleHash sampleRnd "[1]" 0]
  by (simp add: round_up_def SegmentSize_def SectorSize_def zeroSectorBuilder_def)


subsection \<open>C8: the slices a sector records\<close>

text \<open>
  C8. Each successful \<open>Append\<close> records one more slice, whose offset is the builder's length
  before the call, whose length is the length of the unpadded data and whose checksum is the
  hash of the original data, and advances the builder's length by the data length rounded up
  to the next 64-byte segment boundary. For every sequence of successful \<open>Append\<close> calls
  followed by \<open>Finish\<close>, the slices recorded by the sequence are the ones the specification
  lists (\<open>recorded\<close>), and after \<open>Finish\<close> every slice of the builder carries the Merkle root
  of the finished sector. In particular, on an empty builder, appending 3 bytes and then 5
  bytes succeeds, \<open>Finish\<close> returns, and the slices are \<open>{offset 0, length 3}\<close> and
  \<open>{offset 64, length 5}\<close>, both with the root of the finished sector.
\<close>

theorem Append_Finish_slices:
  "(Append E H rnd data key chunkIndex b = (None, b1) \<longrightarrow>
      map slice_view (slices b1) = map slice_view (slices b) @ [(sectorLen b, length data, H data)]
      \<and> sectorLen b1 = sectorLen b + round_up (length data) SegmentSize)
   \<and> (AppendAll E H calls b = (None, b') \<and> Finish M rndF b' = Inr (sec, b'') \<longrightarrow>
      map slice_view (drop (length (slices b)) (slices b'')) =
        recorded H (sectorLen b) (map call_data calls)
      \<and> sectorLen b' =
        sectorLen b + sum_list (map (\<lambda>c. round_up (length (call_data c)) SegmentSize) calls)
      \<and> sector b'' = sec
      \<and> (\<forall>s \<in> set (slices b''). MerkleRoot s = M sec))
   \<and> (length d1 = 3 \<and> length d2 = 5 \<and>
      length (sector b) = SectorSize \<and> sectorLen b = 0 \<and> slices b = [] \<longrightarrow>
      (\<exists>b' sec b''.
         AppendAll E H [(r1, d1, k1, c1), (r2, d2, k2, c2)] b = (None, b') \<and>
         Finish M rndF b' = Inr (sec, b'') \<and>
         slices b'' = [\<lparr>Offset = 0, Length = 3, Checksum = H d1, MerkleRoot = M sec\<rparr>,
                       \<lparr>Offset = 64, Length = 5, Checksum = H d2, MerkleRoot = M sec\<rparr>]))"
proof (intro conjI impI)
  assume a: "Append E H rnd data key chunkIndex b = (None, b1)"
  show "map slice_view (slices b1) = map slice_view (slices b) @ [(sectorLen b, length data, H data)]"
    by (rule Append_slice_view [OF a])
  show "sectorLen b1 = sectorLen b + round_up (length data) SegmentSize"
    by (rule Append_None(2) [OF a])
next
  assume h: "AppendAll E H calls b = (None, b') \<and> Finish M rndF b' = Inr (sec, b'')"
  then have all: "AppendAll E H calls b = (None, b')" and fin: "Finish M rndF b' = Inr (sec, b'')"
    by simp_all
  note A = AppendAll_None [OF all]
  note F = Finish_Inr [OF fin]
  have "map slice_view (slices b'') = map slice_view (slices b')"
    by (simp add: F(1) slice_view_MerkleRoot comp_def)
  then have "map slice_view (drop (length (slices b)) (slices b'')) =
             drop (length (slices b)) (map slice_view (slices b'))"
    by (metis drop_map)
  also have "\<dots> = recorded H (sectorLen b) (map call_data calls)"
    using A by simp
  finally show "map slice_view (drop (length (slices b)) (slices b'')) =
        recorded H (sectorLen b) (map call_data calls)" .
  show "sectorLen b' =
        sectorLen b + sum_list (map (\<lambda>c. round_up (length (call_data c)) SegmentSize) calls)"
    using A by simp
  show "sector b'' = sec" by (rule F(2))
  show "\<forall>s \<in> set (slices b''). MerkleRoot s = M sec"
    by (auto simp: F(1))
next
  assume h: "length d1 = 3 \<and> length d2 = 5 \<and>
      length (sector b) = SectorSize \<and> sectorLen b = 0 \<and> slices b = []"
  have r3: "round_up 3 SegmentSize = 64" and r5: "round_up 5 SegmentSize = 64"
    by (simp_all add: round_up_def SegmentSize_def)
  have "fst (Append E H r1 d1 k1 c1 b) = None"
    using h by (intro Append_total) (simp_all add: r3 SectorSize_def)
  then obtain b1 where a1: "Append E H r1 d1 k1 c1 b = (None, b1)"
    by (cases "Append E H r1 d1 k1 c1 b") auto
  note A1 = Append_None [OF a1]
  have "fst (Append E H r2 d2 k2 c2 b1) = None"
    using h A1 by (intro Append_total) (simp_all add: r3 r5 SectorSize_def)
  then obtain b2 where a2: "Append E H r2 d2 k2 c2 b1 = (None, b2)"
    by (cases "Append E H r2 d2 k2 c2 b1") auto
  note A2 = Append_None [OF a2]
  have all: "AppendAll E H [(r1, d1, k1, c1), (r2, d2, k2, c2)] b = (None, b2)"
    by (simp add: a1 a2)
  obtain sec b3 where fin: "Finish M rndF b2 = Inr (sec, b3)"
    using Finish_total [OF A2(5)] by blast
  have "slices b3 = [\<lparr>Offset = 0, Length = 3, Checksum = H d1, MerkleRoot = M sec\<rparr>,
                       \<lparr>Offset = 64, Length = 5, Checksum = H d2, MerkleRoot = M sec\<rparr>]"
    using h by (simp add: Finish_Inr(1) [OF fin] A2(1) A1(1) A1(2) r3)
  with all fin show "\<exists>b' sec b''.
         AppendAll E H [(r1, d1, k1, c1), (r2, d2, k2, c2)] b = (None, b') \<and>
         Finish M rndF b' = Inr (sec, b'') \<and>
         slices b'' = [\<lparr>Offset = 0, Length = 3, Checksum = H d1, MerkleRoot = M sec\<rparr>,
                       \<lparr>Offset = 64, Length = 5, Checksum = H d2, MerkleRoot = M sec\<rparr>]"
    by blast
qed

theorem Append_Finish_slices_witness:
  "\<exists>b' sec b''.
     AppendAll sampleCipher sampleHash
       [(sampleRnd, [65, 66, 67], [1], 0), (sampleRnd, [68, 69, 70, 71, 72], [1], 1)]
       zeroSectorBuilder = (None, b') \<and>
     Finish sampleRoot sampleRnd b' = Inr (sec, b'') \<and>
     slices b'' = [\<lparr>Offset = 0, Length = 3, Checksum = [3, 198], MerkleRoot = sampleRoot sec\<rparr>,
                   \<lparr>Offset = 64, Length = 5, Checksum = [5, 94], MerkleRoot = sampleRoot sec\<rparr>] \<and>
     map slice_view (slices b'') = [(0, 3, [3, 198]), (64, 5, [5, 94])] \<and>
     sectorLen b' = 128 \<and> sector b'' = sec"
proof -
  let ?calls = "[(sampleRnd, [65, 66, 67], [1], 0), (sampleRnd, [68, 69, 70, 71, 72], [1], 1)]"
  have "length [65 :: byte, 66, 67] = 3 \<and> length [68 :: byte, 69, 70, 71, 72] = 5 \<and>
        length (sector zeroSectorBuilder) = SectorSize \<and> sectorLen zeroSectorBuilder = 0 \<and>
        slices zeroSectorBuilder = []"
    by (simp add: zeroSectorBuilder_def)
  with Append_Finish_slices [of sampleCipher sampleHash _ _ _ _ zeroSectorBuilder _ _ _
      sampleRoot sampleRnd _ _ "[65, 66, 67]" "[68, 69, 70, 71, 72]"
      sampleRnd "[1]" 0 sampleRnd "[1]" 1]
  obtain b' sec b'' where
    all: "AppendAll sampleCipher sampleHash ?calls zeroSectorBuilder = (None, b')" and
    fin: "Finish sampleRoot sampleRnd b' = Inr (sec, b'')" and
    sl: "slices b'' = [\<lparr>Offset = 0, Length = 3, Checksum = sampleHash [65, 66, 67],
                        MerkleRoot = sampleRoot sec\<rparr>,
                       \<lparr>Offset = 64, Length = 5, Checksum = sampleHash [68, 69, 70, 71, 72],
                        MerkleRoot = sampleRoot sec\<rparr>]"
    by blast
  from Append_Finish_slices [of sampleCipher sampleHash _ _ _ _ zeroSectorBuilder _ ?calls b'
      sampleRoot sampleRnd sec b''] all fin
  have v: "map slice_view (drop (length (slices zeroSectorBuilder)) (slices b'')) =
        recorded sampleHash (sectorLen zeroSectorBuilder) (map call_data ?calls)"
    and l: "sectorLen b' = sectorLen zeroSectorBuilder +
        sum_list (map (\<lambda>c. round_up (length (call_data c)) SegmentSize) ?calls)"
    and s: "sector b'' = sec"
    by blast+
  have h: "sampleHash [65, 66, 67] = [3, 198]" "sampleHash [68, 69, 70, 71, 72] = [5, 94]"
    by (simp_all add: sampleHash_def)
  have "map slice_view (slices b'') = [(0, 3, [3, 198]), (64, 5, [5, 94])]"
    using v by (simp add: zeroSectorBuilder_def call_data_def round_up_def SegmentSize_def h)
  moreover have "sectorLen b' = 128"
    using l by (simp add: zeroSectorBuilder_def call_data_def round_up_def SegmentSize_def)
  ultimately show ?thesis using all fin sl s h by simp
qed

subsection \<open>C9: the shard is written only after the upload\<close>

lemma round_up_le_SectorSize:
  assumes "n \<le> SectorSize"
  shows "round_up n SegmentSize \<le> SectorSize"
proof -
  have "(n + 63) div 64 \<le> (4194304 + 63) div 64"
    using assms by (intro div_le_mono) (simp add: SectorSize_def)
  then have "(n + 63) div 64 \<le> 65536" by simp
  then have "(n + 63) div 64 * 64 \<le> 65536 * 64" by (rule mult_le_mono1)
  then show ?thesis by (simp add: round_up_def SegmentSize_def SectorSize_def)
qed

lemma EncryptAndUpload_too_long:
  "SectorSize < length data \<Longrightarrow>
   EncryptAndUpload E H M Upload WriteSlice rp rt data ci u =
     (Fail (ErrorsNew ''data exceeds sector size''), u)"
  by (simp add: EncryptAndUpload_def)

lemma EncryptAndUpload_run:
  assumes len: "length data \<le> SectorSize"
      and wf: "length (sector (sb u)) = SectorSize"
  obtains b1 sec b2 where
    "Append E H rp data (Key u) ci (Reset (sb u)) = (None, b1)"
    "Finish M rt b1 = Inr (sec, b2)"
    "slices b2 = [\<lparr>Offset = 0, Length = of_nat (length data), Checksum = H data,
                   MerkleRoot = M sec\<rparr>]"
proof -
  have "fst (Append E H rp data (Key u) ci (Reset (sb u))) = None"
    using round_up_le_SectorSize [OF len] wf
    by (intro Append_total) (simp_all add: Reset_def)
  then obtain b1 where a: "Append E H rp data (Key u) ci (Reset (sb u)) = (None, b1)"
    by (cases "Append E H rp data (Key u) ci (Reset (sb u))") auto
  obtain sec b2 where f: "Finish M rt b1 = Inr (sec, b2)"
    using Finish_total [OF Append_None(5) [OF a]] by blast
  have "slices b2 = [\<lparr>Offset = 0, Length = of_nat (length data), Checksum = H data,
                   MerkleRoot = M sec\<rparr>]"
    by (simp add: Finish_Inr(1) [OF f] Append_None(1) [OF a] Reset_def)
  with a f show ?thesis by (rule that)
qed

lemma EncryptAndUpload_upload_error:
  assumes "length data \<le> SectorSize"
      and "Append E H rp data (Key u) ci (Reset (sb u)) = (None, b1)"
      and "Finish M rt b1 = Inr (sec, b2)"
      and "Upload (Uploader u) sec = (Inl err, up')"
  shows "EncryptAndUpload E H M Upload WriteSlice rp rt data ci u =
           (Fail err, u\<lparr>Uploader := up', sb := b2\<rparr>)"
  using assms by (simp add: EncryptAndUpload_def)

lemma EncryptAndUpload_upload_ok:
  assumes "length data \<le> SectorSize"
      and "Append E H rp data (Key u) ci (Reset (sb u)) = (None, b1)"
      and "Finish M rt b1 = Inr (sec, b2)"
      and "Upload (Uploader u) sec = (Inr root, up')"
      and "WriteSlice (Shard u)
             \<lparr>Offset = 0, Length = of_nat (length data), Checksum = H data, MerkleRoot = M sec\<rparr>
             ci = (w, sh')"
  shows "EncryptAndUpload E H M Upload WriteSlice rp rt data ci u =
           (case w of
              None \<Rightarrow> Return \<lparr>Offset = 0, Length = of_nat (length data), Checksum = H data,
                              MerkleRoot = M sec\<rparr>
            | Some e \<Rightarrow> Fail (ErrorsWrap e ''could not write to shard file''),
            u\<lparr>Uploader := up', Shard := sh', sb := b2\<rparr>)"
proof -
  have "slices b2 = [\<lparr>Offset = 0, Length = of_nat (length data), Checksum = H data,
                      MerkleRoot = M sec\<rparr>]"
    by (simp add: Finish_Inr(1) [OF assms(3)] Append_None(1) [OF assms(2)] Reset_def)
  then show ?thesis
    using assms by (simp add: EncryptAndUpload_def Slices_def split: option.splits)
qed

lemma EncryptAndUpload_shard_changed:
  assumes "Shard (snd (EncryptAndUpload E H M Upload WriteSlice rp rt data ci u)) \<noteq> Shard u"
  shows "\<exists>b1 sec b2 root up'.
           Append E H rp data (Key u) ci (Reset (sb u)) = (None, b1) \<and>
           Finish M rt b1 = Inr (sec, b2) \<and>
           Upload (Uploader u) sec = (Inr root, up')"
  using assms
  by (auto simp: EncryptAndUpload_def
      split: if_splits prod.splits option.splits sum.splits list.splits)

text \<open>
  C9. \<open>EncryptAndUpload\<close> fails at once, touching nothing, when the data is longer than a
  sector. Otherwise, on a builder with a full-size sector array, the data is appended to the
  reset builder and the sector finished. When the upload of that very sector returns an
  error, \<open>EncryptAndUpload\<close> returns that error and only the uploader and the builder have
  changed: the shard is as it was, \<open>WriteSlice\<close> has not run. When the upload of that sector
  succeeds, the shard is what \<open>WriteSlice\<close> makes of it for the slice of this chunk index.
  Whenever the shard differs after the call, the upload of the sector that was built
  returned a Merkle root, not an error.
\<close>

theorem EncryptAndUpload_writes_after_upload:
  "(SectorSize < length data \<longrightarrow>
      EncryptAndUpload E H M Upload WriteSlice rp rt data ci u =
        (Fail (ErrorsNew ''data exceeds sector size''), u))
   \<and> (length data \<le> SectorSize \<and> length (sector (sb u)) = SectorSize \<longrightarrow>
      (\<exists>b1 sec b2. Append E H rp data (Key u) ci (Reset (sb u)) = (None, b1) \<and>
                    Finish M rt b1 = Inr (sec, b2)))
   \<and> (length data \<le> SectorSize \<and>
      Append E H rp data (Key u) ci (Reset (sb u)) = (None, b1) \<and>
      Finish M rt b1 = Inr (sec, b2) \<and>
      Upload (Uploader u) sec = (Inl err, up') \<longrightarrow>
      EncryptAndUpload E H M Upload WriteSlice rp rt data ci u =
        (Fail err, u\<lparr>Uploader := up', sb := b2\<rparr>))
   \<and> (length data \<le> SectorSize \<and>
      Append E H rp data (Key u) ci (Reset (sb u)) = (None, b1) \<and>
      Finish M rt b1 = Inr (sec, b2) \<and>
      Upload (Uploader u) sec = (Inr root, up') \<and>
      WriteSlice (Shard u)
        \<lparr>Offset = 0, Length = of_nat (length data), Checksum = H data, MerkleRoot = M sec\<rparr>
        ci = (w, sh') \<longrightarrow>
      EncryptAndUpload E H M Upload WriteSlice rp rt data ci u =
        (case w of
           None \<Rightarrow> Return \<lparr>Offset = 0, Length = of_nat (length data), Checksum = H data,
                           MerkleRoot = M sec\<rparr>
         | Some e \<Rightarrow> Fail (ErrorsWrap e ''could not write to shard file''),
         u\<lparr>Uploader := up', Shard := sh', sb := b2\<rparr>))
   \<and> (Shard (snd (EncryptAndUpload E H M Upload WriteSlice rp rt data ci u)) \<noteq> Shard u \<longrightarrow>
      (\<exists>b1 sec b2 root up'.
         Append E H rp data (Key u) ci (Reset (sb u)) = (None, b1) \<and>
         Finish M rt b1 = Inr (sec, b2) \<and>
         Upload (Uploader u) sec = (Inr root, up')))"
proof (intro conjI impI)
  assume "SectorSize < length data"
  then show "EncryptAndUpload E H M Upload WriteSlice rp rt data ci u =
        (Fail (ErrorsNew ''data exceeds sector size''), u)"
    by (rule EncryptAndUpload_too_long)
next
  assume "length data \<le> SectorSize \<and> length (sector (sb u)) = SectorSize"
  then have len: "length data \<le> SectorSize" and wf: "length (sector (sb u)) = SectorSize"
    by simp_all
  show "\<exists>b1 sec b2. Append E H rp data (Key u) ci (Reset (sb u)) = (None, b1) \<and>
                    Finish M rt b1 = Inr (sec, b2)"
    using EncryptAndUpload_run [OF len wf, of E H rp ci M rt] by metis
next
  assume "length data \<le> SectorSize \<and>
      Append E H rp data (Key u) ci (Reset (sb u)) = (None, b1) \<and>
      Finish M rt b1 = Inr (sec, b2) \<and>
      Upload (Uploader u) sec = (Inl err, up')"
  then show "EncryptAndUpload E H M Upload WriteSlice rp rt data ci u =
        (Fail err, u\<lparr>Uploader := up', sb := b2\<rparr>)"
    using EncryptAndUpload_upload_error [of data E H rp u ci b1 M rt sec b2 Upload err up' WriteSlice]
    by blast
next
  assume "length data \<le> SectorSize \<and>
      Append E H rp data (Key u) ci (Reset (sb u)) = (None, b1) \<and>
      Finish M rt b1 = Inr (sec, b2) \<and>
      Upload (Uploader u) sec = (Inr root, up') \<and>
      WriteSlice (Shard u)
        \<lparr>Offset = 0, Length = of_nat (length data), Checksum = H data, MerkleRoot = M sec\<rparr>
        ci = (w, sh')"
  then show "EncryptAndUpload E H M Upload WriteSlice rp rt data ci u =
        (case w of
           None \<Rightarrow> Return \<lparr>Offset = 0, Length = of_nat (length data), Checksum = H data,
                           MerkleRoot = M sec\<rparr>
         | Some e \<Rightarrow> Fail (ErrorsWrap e ''could not write to shard file''),
         u\<lparr>Uploader := up', Shard := sh', sb := b2\<rparr>)"
    using EncryptAndUpload_upload_ok [of data E H rp u ci b1 M rt sec b2 Upload root up'
                                        WriteSlice w sh']
    by blast
next
  assume "Shard (snd (EncryptAndUpload E H M Upload WriteSlice rp rt data ci u)) \<noteq> Shard u"
  then show "\<exists>b1 sec b2 root up'.
         Append E H rp data (Key u) ci (Reset (sb u)) = (None, b1) \<and>
         Finish M rt b1 = Inr (sec, b2) \<and>
         Upload (Uploader u) sec = (Inr root, up')"
    by (rule EncryptAndUpload_shard_changed)
qed


theorem EncryptAndUpload_writes_after_upload_witness:
  "EncryptAndUpload sampleCipher sampleHash sampleRoot sampleUploadFail sampleWriteSlice
     sampleRnd sampleRnd (replicate 4194305 7) 5 sampleShardUploader =
     (Fail (ErrorsNew ''data exceeds sector size''), sampleShardUploader)
   \<and> (\<exists>b2. EncryptAndUpload sampleCipher sampleHash sampleRoot sampleUploadFail sampleWriteSlice
              sampleRnd sampleRnd [65, 66, 67] 5 sampleShardUploader =
            (Fail (ErrIO ''host unreachable''), sampleShardUploader\<lparr>sb := b2\<rparr>))
   \<and> (\<exists>sec b2. EncryptAndUpload sampleCipher sampleHash sampleRoot sampleUploadOk sampleWriteSlice
              sampleRnd sampleRnd [65, 66, 67] 5 sampleShardUploader =
            (Return \<lparr>Offset = 0, Length = 3, Checksum = [3, 198], MerkleRoot = sampleRoot sec\<rparr>,
             sampleShardUploader
               \<lparr>Uploader := 1,
                Shard := [(5, \<lparr>Offset = 0, Length = 3, Checksum = [3, 198],
                               MerkleRoot = sampleRoot sec\<rparr>)],
                sb := b2\<rparr>))
   \<and> (\<exists>b1 sec b2 root up'.
         Append sampleCipher sampleHash sampleRnd [65, 66, 67] (Key sampleShardUploader) 5
           (Reset (sb sampleShardUploader)) = (None, b1) \<and>
         Finish sampleRoot sampleRnd b1 = Inr (sec, b2) \<and>
         sampleUploadOk (Uploader sampleShardUploader) sec = (Inr root, up'))"
proof -
  let ?d = "[65 :: byte, 66, 67]"
  note T = EncryptAndUpload_writes_after_upload
  have wf: "length (sector (sb sampleShardUploader)) = SectorSize"
    by (simp add: sampleShardUploader_def zeroSectorBuilder_def)
  have l3: "length ?d \<le> SectorSize" by (simp add: SectorSize_def)
  have big: "SectorSize < length (replicate 4194305 (7 :: byte))" by (simp add: SectorSize_def)
  have h: "sampleHash ?d = [3, 198]" by (simp add: sampleHash_def)
  from T [of "replicate 4194305 7" sampleCipher sampleHash sampleRoot sampleUploadFail
            sampleWriteSlice sampleRnd sampleRnd 5 sampleShardUploader] big
  have c1: "EncryptAndUpload sampleCipher sampleHash sampleRoot sampleUploadFail sampleWriteSlice
     sampleRnd sampleRnd (replicate 4194305 7) 5 sampleShardUploader =
     (Fail (ErrorsNew ''data exceeds sector size''), sampleShardUploader)"
    by blast
  from T [of ?d sampleCipher sampleHash sampleRoot sampleUploadFail sampleWriteSlice
            sampleRnd sampleRnd 5 sampleShardUploader] l3 wf
  obtain b1 sec b2 where
    a: "Append sampleCipher sampleHash sampleRnd ?d (Key sampleShardUploader) 5
          (Reset (sb sampleShardUploader)) = (None, b1)" and
    f: "Finish sampleRoot sampleRnd b1 = Inr (sec, b2)"
    by blast
  have uf: "sampleUploadFail (Uploader sampleShardUploader) sec =
              (Inl (ErrIO ''host unreachable''), 0)"
    by (simp add: sampleUploadFail_def sampleShardUploader_def)
  have uo: "sampleUploadOk (Uploader sampleShardUploader) sec = (Inr (sampleRoot sec), 1)"
    by (simp add: sampleUploadOk_def sampleShardUploader_def)
  have ws: "sampleWriteSlice (Shard sampleShardUploader)
              \<lparr>Offset = 0, Length = of_nat (length ?d), Checksum = sampleHash ?d,
               MerkleRoot = sampleRoot sec\<rparr> 5 =
            (None, [(5, \<lparr>Offset = 0, Length = 3, Checksum = [3, 198],
                          MerkleRoot = sampleRoot sec\<rparr>)])"
    by (simp add: sampleWriteSlice_def sampleShardUploader_def h)
  from T [of ?d sampleCipher sampleHash sampleRoot sampleUploadFail sampleWriteSlice
            sampleRnd sampleRnd 5 sampleShardUploader b1 sec b2 "ErrIO ''host unreachable''" 0]
       l3 a f uf
  have "EncryptAndUpload sampleCipher sampleHash sampleRoot sampleUploadFail sampleWriteSlice
          sampleRnd sampleRnd ?d 5 sampleShardUploader =
        (Fail (ErrIO ''host unreachable''), sampleShardUploader\<lparr>Uploader := 0, sb := b2\<rparr>)"
    by blast
  then have c2: "EncryptAndUpload sampleCipher sampleHash sampleRoot sampleUploadFail
          sampleWriteSlice sampleRnd sampleRnd ?d 5 sampleShardUploader =
        (Fail (ErrIO ''host unreachable''), sampleShardUploader\<lparr>sb := b2\<rparr>)"
    by (simp add: sampleShardUploader_def)
  from T [of ?d sampleCipher sampleHash sampleRoot sampleUploadOk sampleWriteSlice
            sampleRnd sampleRnd 5 sampleShardUploader b1 sec b2 _ 1 "sampleRoot sec" None
            "[(5, \<lparr>Offset = 0, Length = 3, Checksum = [3, 198], MerkleRoot = sampleRoot sec\<rparr>)]"]
       l3 a f uo ws
  have "EncryptAndUpload sampleCipher sampleHash sampleRoot sampleUploadOk sampleWriteSlice
          sampleRnd sampleRnd ?d 5 sampleShardUploader =
        (case None :: error option of
           None \<Rightarrow> Return \<lparr>Offset = 0, Length = of_nat (length ?d), Checksum = sampleHash ?d,
                           MerkleRoot = sampleRoot sec\<rparr>
         | Some e \<Rightarrow> Fail (ErrorsWrap e ''could not write to shard file''),
         sampleShardUploader
           \<lparr>Uploader := 1,
            Shard := [(5, \<lparr>Offset = 0, Length = 3, Checksum = [3, 198],
                           MerkleRoot = sampleRoot sec\<rparr>)],
            sb := b2\<rparr>)"
    by blast
  then have c3: "EncryptAndUpload sampleCipher sampleHash sampleRoot sampleUploadOk
          sampleWriteSlice sampleRnd sampleRnd ?d 5 sampleShardUploader =
        (Return \<lparr>Offset = 0, Length = 3, Checksum = [3, 198], MerkleRoot = sampleRoot sec\<rparr>,
         sampleShardUploader
           \<lparr>Uploader := 1,
            Shard := [(5, \<lparr>Offset = 0, Length = 3, Checksum = [3, 198],
                           MerkleRoot = sampleRoot sec\<rparr>)],
            sb := b2\<rparr>)"
    by (simp add: h)
  then have "Shard (snd (EncryptAndUpload sampleCipher sampleHash sampleRoot sampleUploadOk
               sampleWriteSlice sampleRnd sampleRnd ?d 5 sampleShardUploader)) \<noteq>
             Shard sampleShardUploader"
    by (simp add: sampleShardUploader_def)
  with T [of ?d sampleCipher sampleHash sampleRoot sampleUploadOk sampleWriteSlice
            sampleRnd sampleRnd 5 sampleShardUploader]
  have c4: "\<exists>b1 sec b2 root up'.
         Append sampleCipher sampleHash sampleRnd ?d (Key sampleShardUploader) 5
           (Reset (sb sampleShardUploader)) = (None, b1) \<and>
         Finish sampleRoot sampleRnd b1 = Inr (sec, b2) \<and>
         sampleUploadOk (Uploader sampleShardUploader) sec = (Inr root, up')"
    by blast
  from c1 c2 c3 c4 show ?thesis by blast
qed

subsection \<open>C10: the dialed address survives the settings exchange\<close>

lemma ReadObject_outgoing: "ReadObject c n = (r, c') \<Longrightarrow> outgoing c' = outgoing c"
  by (auto simp: ReadObject_def split: list.splits if_splits)

lemma ReadSignedObject_outgoing:
  "ReadSignedObject V c n pk = (r, c') \<Longrightarrow> outgoing c' = outgoing c"
  by (auto simp: ReadSignedObject_def split: prod.splits sum.splits object.splits if_splits
      dest: ReadObject_outgoing)

lemma verifySettings_outgoing:
  "verifySettings V c host = (r, c') \<Longrightarrow> outgoing c' = outgoing c"
  by (auto simp: verifySettings_def Let_def split: prod.splits sum.splits
      dest: ReadSignedObject_outgoing)

lemma verifySettings_Inr:
  assumes "verifySettings V c host = (Inr h', c')"
  shows "NetAddress (HostSettings h') = NetAddress (HostSettings host)"
    and "PublicKey h' = PublicKey host"
  using assms
  by (auto simp: verifySettings_def Let_def split: prod.splits sum.splits if_splits)

lemma verifySettings_frame:
  assumes "incoming c = \<lparr>frameLen = n, payload = ObjSignedSettings recv sg\<rparr> # rest"
      and "n \<le> NegotiateMaxHostExternalSettingsLen"
      and "V (PublicKey host) recv sg"
  shows "verifySettings V c host =
           (Inr (host\<lparr>HostSettings := recv\<lparr>NetAddress := NetAddress (HostSettings host)\<rparr>\<rparr>),
            c\<lparr>incoming := rest\<rparr>)"
  using assms
  by (simp add: verifySettings_def ReadSignedObject_def ReadObject_def Let_def)

text \<open>
  C10. Whenever \<open>verifySettings\<close> returns a host, its network address is the address of the
  session's host (the one that was dialed) and its public key is unchanged. When the host
  sends correctly signed settings within the size limit, whatever network address they
  carry, \<open>verifySettings\<close> returns without error the session's host with the received
  settings, their network address overwritten by the dialed one.
\<close>

theorem verifySettings_keeps_dialed_address:
  "(verifySettings V c host = (Inr h', c') \<longrightarrow>
      NetAddress (HostSettings h') = NetAddress (HostSettings host) \<and>
      PublicKey h' = PublicKey host)
   \<and> (incoming c = \<lparr>frameLen = n, payload = ObjSignedSettings recv sg\<rparr> # rest \<and>
      n \<le> NegotiateMaxHostExternalSettingsLen \<and> V (PublicKey host) recv sg \<longrightarrow>
      verifySettings V c host =
        (Inr (host\<lparr>HostSettings := recv\<lparr>NetAddress := NetAddress (HostSettings host)\<rparr>\<rparr>),
         c\<lparr>incoming := rest\<rparr>))"
  using verifySettings_Inr [of V c host h' c'] verifySettings_frame [of c n recv sg rest V host]
  by blast

theorem verifySettings_keeps_dialed_address_witness:
  "verifySettings sampleVerify
     (sampleConn [\<lparr>frameLen = 300,
                   payload = ObjSignedSettings (sampleSettings\<lparr>NetAddress := ''other.example:1''\<rparr>)
                               [9]\<rparr>])
     sampleHost = (Inr sampleHost, sampleConn [])
   \<and> NetAddress (HostSettings sampleHost) = ''host.example:9982''"
proof -
  let ?recv = "sampleSettings\<lparr>NetAddress := ''other.example:1''\<rparr>"
  let ?c = "sampleConn [\<lparr>frameLen = 300, payload = ObjSignedSettings ?recv [9]\<rparr>]"
  have "incoming ?c = \<lparr>frameLen = 300, payload = ObjSignedSettings ?recv [9]\<rparr> # [] \<and>
        300 \<le> NegotiateMaxHostExternalSettingsLen \<and> sampleVerify (PublicKey sampleHost) ?recv [9]"
    by (simp add: sampleConn_def NegotiateMaxHostExternalSettingsLen_def sampleVerify_def
        sampleHost_def)
  with verifySettings_keeps_dialed_address [of sampleVerify ?c sampleHost _ _ 300 ?recv "[9]" "[]"]
  have r: "verifySettings sampleVerify ?c sampleHost =
        (Inr (sampleHost\<lparr>HostSettings := ?recv\<lparr>NetAddress := NetAddress (HostSettings sampleHost)\<rparr>\<rparr>),
         ?c\<lparr>incoming := []\<rparr>)"
    by blast
  with verifySettings_keeps_dialed_address [of sampleVerify ?c sampleHost _ _ 300 ?recv "[9]" "[]"]
  have "NetAddress (HostSettings (sampleHost\<lparr>HostSettings := ?recv\<lparr>NetAddress := NetAddress (HostSettings sampleHost)\<rparr>\<rparr>)) =
        NetAddress (HostSettings sampleHost)"
    by blast
  with r show ?thesis
    by (simp add: sampleHost_def sampleSettings_def sampleConn_def)
qed

subsection \<open>C5: the price check at the start of an iteration\<close>

lemma startRevision_increase:
  assumes "verifySettings V c host = (Inr newhost, c')"
      and "UploadBandwidthPrice (HostSettings host) < UploadBandwidthPrice (HostSettings newhost)
         \<or> DownloadBandwidthPrice (HostSettings host) < DownloadBandwidthPrice (HostSettings newhost)
         \<or> StoragePrice (HostSettings host) < StoragePrice (HostSettings newhost)"
  shows "\<exists>msg \<in> {''host upload price increased'', ''host download price increased'',
                  ''host storage price increased''}.
           startRevision V c host = (Some (ErrorsNew msg), c', host)"
  using assms by (auto simp: startRevision_def)

lemma startRevision_accept:
  assumes "verifySettings V c host = (Inr newhost, c')"
      and "UploadBandwidthPrice (HostSettings newhost) \<le> UploadBandwidthPrice (HostSettings host)"
      and "DownloadBandwidthPrice (HostSettings newhost) \<le> DownloadBandwidthPrice (HostSettings host)"
      and "StoragePrice (HostSettings newhost) \<le> StoragePrice (HostSettings host)"
  shows "startRevision V c host =
           (fst (WriteObject c' (ObjString AcceptResponse)),
            snd (WriteObject c' (ObjString AcceptResponse)), newhost)"
  using assms
  by (simp add: startRevision_def WriteNegotiationAcceptance_def split: prod.splits)

text \<open>
  C5, as amended. After the host's signed settings are read and verified, \<open>startRevision\<close>
  fails with a price-increased error whenever the upload-bandwidth, download-bandwidth or
  storage price strictly exceeds the cached value; on that path it writes nothing to the
  connection (no negotiation-stop is sent) and the cached host is unchanged. Otherwise the
  new settings are cached and an acceptance is written: the result is that of the write,
  and when no write error is scripted the acceptance is the one object added to the
  connection's output.
\<close>

theorem startRevision_price_check:
  assumes "verifySettings V c host = (Inr newhost, c')"
  shows "(UploadBandwidthPrice (HostSettings host) < UploadBandwidthPrice (HostSettings newhost)
          \<or> DownloadBandwidthPrice (HostSettings host) < DownloadBandwidthPrice (HostSettings newhost)
          \<or> StoragePrice (HostSettings host) < StoragePrice (HostSettings newhost) \<longrightarrow>
            (\<exists>msg \<in> {''host upload price increased'', ''host download price increased'',
                       ''host storage price increased''}.
               startRevision V c host = (Some (ErrorsNew msg), c', host))
            \<and> outgoing c' = outgoing c)
       \<and> (UploadBandwidthPrice (HostSettings newhost) \<le> UploadBandwidthPrice (HostSettings host)
          \<and> DownloadBandwidthPrice (HostSettings newhost) \<le> DownloadBandwidthPrice (HostSettings host)
          \<and> StoragePrice (HostSettings newhost) \<le> StoragePrice (HostSettings host) \<longrightarrow>
            startRevision V c host =
              (fst (WriteObject c' (ObjString AcceptResponse)),
               snd (WriteObject c' (ObjString AcceptResponse)), newhost)
            \<and> (writeErrs c' = [] \<longrightarrow>
                 startRevision V c host =
                   (None, c'\<lparr>outgoing := outgoing c @ [ObjString AcceptResponse]\<rparr>, newhost)))"
proof (intro conjI impI)
  assume inc: "UploadBandwidthPrice (HostSettings host) < UploadBandwidthPrice (HostSettings newhost)
          \<or> DownloadBandwidthPrice (HostSettings host) < DownloadBandwidthPrice (HostSettings newhost)
          \<or> StoragePrice (HostSettings host) < StoragePrice (HostSettings newhost)"
  show "\<exists>msg \<in> {''host upload price increased'', ''host download price increased'',
                       ''host storage price increased''}.
               startRevision V c host = (Some (ErrorsNew msg), c', host)"
    by (rule startRevision_increase [OF assms inc])
  show "outgoing c' = outgoing c"
    by (rule verifySettings_outgoing [OF assms])
next
  assume le: "UploadBandwidthPrice (HostSettings newhost) \<le> UploadBandwidthPrice (HostSettings host)
          \<and> DownloadBandwidthPrice (HostSettings newhost) \<le> DownloadBandwidthPrice (HostSettings host)
          \<and> StoragePrice (HostSettings newhost) \<le> StoragePrice (HostSettings host)"
  then show acc: "startRevision V c host =
              (fst (WriteObject c' (ObjString AcceptResponse)),
               snd (WriteObject c' (ObjString AcceptResponse)), newhost)"
    using startRevision_accept [OF assms] by blast
  assume "writeErrs c' = []"
  then show "startRevision V c host =
                   (None, c'\<lparr>outgoing := outgoing c @ [ObjString AcceptResponse]\<rparr>, newhost)"
    using acc verifySettings_outgoing [OF assms] by (simp add: WriteObject_def)
qed

theorem startRevision_price_check_witness:
  "startRevision sampleVerify
     (sampleConn [\<lparr>frameLen = 300,
                   payload = ObjSignedSettings (sampleSettings\<lparr>StoragePrice := 11\<rparr>) [9]\<rparr>])
     sampleHost =
     (Some (ErrorsNew ''host storage price increased''), sampleConn [], sampleHost)
   \<and> startRevision sampleVerify
     (sampleConn [\<lparr>frameLen = 300,
                   payload = ObjSignedSettings (sampleSettings\<lparr>StoragePrice := 9\<rparr>) [9]\<rparr>])
     sampleHost =
     (None, (sampleConn [])\<lparr>outgoing := [ObjString ''accept'']\<rparr>,
      sampleHost\<lparr>HostSettings := sampleSettings\<lparr>StoragePrice := 9\<rparr>\<rparr>)"
proof -
  let ?up = "sampleSettings\<lparr>StoragePrice := 11\<rparr>"
  let ?down = "sampleSettings\<lparr>StoragePrice := 9\<rparr>"
  let ?c1 = "sampleConn [\<lparr>frameLen = 300, payload = ObjSignedSettings ?up [9]\<rparr>]"
  let ?c2 = "sampleConn [\<lparr>frameLen = 300, payload = ObjSignedSettings ?down [9]\<rparr>]"
  have v1: "verifySettings sampleVerify ?c1 sampleHost =
              (Inr (sampleHost\<lparr>HostSettings := ?up\<rparr>), sampleConn [])"
    by (simp add: verifySettings_def ReadSignedObject_def ReadObject_def sampleConn_def
        sampleVerify_def sampleHost_def sampleSettings_def NegotiateMaxHostExternalSettingsLen_def)
  have v2: "verifySettings sampleVerify ?c2 sampleHost =
              (Inr (sampleHost\<lparr>HostSettings := ?down\<rparr>), sampleConn [])"
    by (simp add: verifySettings_def ReadSignedObject_def ReadObject_def sampleConn_def
        sampleVerify_def sampleHost_def sampleSettings_def NegotiateMaxHostExternalSettingsLen_def)
  have inc: "StoragePrice (HostSettings sampleHost) <
             StoragePrice (HostSettings (sampleHost\<lparr>HostSettings := ?up\<rparr>))"
    by (simp add: sampleHost_def sampleSettings_def)
  have le: "UploadBandwidthPrice (HostSettings (sampleHost\<lparr>HostSettings := ?down\<rparr>)) \<le>
              UploadBandwidthPrice (HostSettings sampleHost)
          \<and> DownloadBandwidthPrice (HostSettings (sampleHost\<lparr>HostSettings := ?down\<rparr>)) \<le>
              DownloadBandwidthPrice (HostSettings sampleHost)
          \<and> StoragePrice (HostSettings (sampleHost\<lparr>HostSettings := ?down\<rparr>)) \<le>
              StoragePrice (HostSettings sampleHost)"
    by (simp add: sampleHost_def sampleSettings_def)
  have we: "writeErrs (sampleConn []) = []" by (simp add: sampleConn_def)
  from startRevision_price_check [OF v1] inc
  obtain msg where
    "startRevision sampleVerify ?c1 sampleHost = (Some (ErrorsNew msg), sampleConn [], sampleHost)"
    by blast
  moreover have "fst (startRevision sampleVerify ?c1 sampleHost) =
                   Some (ErrorsNew ''host storage price increased'')"
    by (simp add: startRevision_def v1) (simp add: sampleHost_def sampleSettings_def)
  ultimately have r1: "startRevision sampleVerify ?c1 sampleHost =
     (Some (ErrorsNew ''host storage price increased''), sampleConn [], sampleHost)"
    by simp
  from startRevision_price_check [OF v2] le we
  have "startRevision sampleVerify ?c2 sampleHost =
          (None, (sampleConn [])\<lparr>outgoing := outgoing ?c2 @ [ObjString AcceptResponse]\<rparr>,
           sampleHost\<lparr>HostSettings := ?down\<rparr>)"
    by blast
  then have r2: "startRevision sampleVerify ?c2 sampleHost =
     (None, (sampleConn [])\<lparr>outgoing := [ObjString ''accept'']\<rparr>,
      sampleHost\<lparr>HostSettings := ?down\<rparr>)"
    by (simp add: sampleConn_def AcceptResponse_def)
  from r1 r2 show ?thesis by simp
qed

text \<open>
  C5 as stated fails: when the host raises its storage price, \<open>startRevision\<close> returns the
  price error and the connection's output is empty, so no negotiation-stop was sent.
\<close>

theorem startRevision_stop_counterexample:
  "fst (startRevision sampleVerify
     (sampleConn [\<lparr>frameLen = 300,
                   payload = ObjSignedSettings (sampleSettings\<lparr>StoragePrice := 11\<rparr>) [9]\<rparr>])
     sampleHost) = Some (ErrorsNew ''host storage price increased'')
   \<and> outgoing (fst (snd (startRevision sampleVerify
     (sampleConn [\<lparr>frameLen = 300,
                   payload = ObjSignedSettings (sampleSettings\<lparr>StoragePrice := 11\<rparr>) [9]\<rparr>])
     sampleHost))) = []"
  by (simp add: startRevision_def verifySettings_def ReadSignedObject_def ReadObject_def
      sampleConn_def sampleVerify_def sampleHost_def sampleSettings_def
      NegotiateMaxHostExternalSettingsLen_def)

subsection \<open>C4: a stop response to the renter's signature\<close>

lemma ReadNegotiationAcceptance_stop:
  assumes "incoming c = \<lparr>frameLen = n, payload = ObjString StopResponse\<rparr> # rest"
      and "n \<le> NegotiateMaxErrorSize"
  shows "ReadNegotiationAcceptance c = (Some ErrStopResponse, c\<lparr>incoming := rest\<rparr>)"
  using assms
  by (simp add: ReadNegotiationAcceptance_def ReadObject_def AcceptResponse_def StopResponse_def)

lemma negotiateRevision_after_signature:
  assumes "WriteObject c (ObjRevision rv) = (None, c1)"
      and "ReadNegotiationAcceptance c1 = (None, c2)"
      and "WriteObject c2 (ObjTxnSig (renterSignature SigHash SignHash rv key)) = (None, c3)"
      and "ReadNegotiationAcceptance c3 = (responseErr, c4)"
  shows "negotiateRevision SigHash SignHash SV c rv key =
     (if responseErr \<noteq> None \<and> responseErr \<noteq> Some ErrStopResponse
      then ((emptyTransaction,
             Some (ErrorsWrap (the responseErr) ''host did not accept transaction signature'')),
            c4)
      else
        (case readTxnSig c4 16000 of
           (Inl e, c5) \<Rightarrow>
             ((emptyTransaction, Some (ErrorsWrap e ''could not read host's signature'')), c5)
         | (Inr hostSig, c5) \<Rightarrow>
             (case SV \<lparr>FileContractRevisions = [rv],
                       TransactionSignatures = [renterSignature SigHash SignHash rv key, hostSig]\<rparr>
                      (NewWindowStart rv - 1) of
                Some e \<Rightarrow>
                  ((emptyTransaction, Some (ErrorsWrap e ''negotiated transaction is invalid'')),
                   c5)
              | None \<Rightarrow>
                  ((\<lparr>FileContractRevisions = [rv],
                     TransactionSignatures = [renterSignature SigHash SignHash rv key, hostSig]\<rparr>,
                    responseErr), c5))))"
  using assms by (simp add: negotiateRevision_def Let_def split: prod.splits sum.splits)

text \<open>
  C4. Suppose the revision was sent and accepted and the renter's signature was sent, and
  the host's answer to it is not an acceptance (a \<^verbatim>\<open>"stop"\<close> string is read as
  \<open>ErrStopResponse\<close>). If the answer is \<open>ErrStopResponse\<close>, the iteration goes on: the host's
  signature is read and appended to the transaction, the transaction is validated at height
  \<open>NewWindowStart - 1\<close>, and when it is valid the signed transaction is returned together
  with \<open>ErrStopResponse\<close> (when it is not valid, or the signature cannot be read, the
  iteration fails). Any other answer fails the iteration at that point, and the empty
  transaction is returned with the error.
\<close>

theorem negotiateRevision_stop_response:
  assumes "WriteObject c (ObjRevision rv) = (None, c1)"
      and "ReadNegotiationAcceptance c1 = (None, c2)"
      and "WriteObject c2 (ObjTxnSig (renterSignature SigHash SignHash rv key)) = (None, c3)"
      and "ReadNegotiationAcceptance c3 = (Some e, c4)"
  shows "(e = ErrStopResponse \<and> readTxnSig c4 16000 = (Inr hostSig, c5) \<and>
          SV \<lparr>FileContractRevisions = [rv],
              TransactionSignatures = [renterSignature SigHash SignHash rv key, hostSig]\<rparr>
             (NewWindowStart rv - 1) = None \<longrightarrow>
            negotiateRevision SigHash SignHash SV c rv key =
              ((\<lparr>FileContractRevisions = [rv],
                 TransactionSignatures = [renterSignature SigHash SignHash rv key, hostSig]\<rparr>,
                Some ErrStopResponse), c5))
       \<and> (e = ErrStopResponse \<and> readTxnSig c4 16000 = (Inr hostSig, c5) \<and>
          SV \<lparr>FileContractRevisions = [rv],
              TransactionSignatures = [renterSignature SigHash SignHash rv key, hostSig]\<rparr>
             (NewWindowStart rv - 1) = Some ve \<longrightarrow>
            negotiateRevision SigHash SignHash SV c rv key =
              ((emptyTransaction, Some (ErrorsWrap ve ''negotiated transaction is invalid'')), c5))
       \<and> (e = ErrStopResponse \<and> readTxnSig c4 16000 = (Inl re, c5) \<longrightarrow>
            negotiateRevision SigHash SignHash SV c rv key =
              ((emptyTransaction, Some (ErrorsWrap re ''could not read host's signature'')), c5))
       \<and> (e \<noteq> ErrStopResponse \<longrightarrow>
            negotiateRevision SigHash SignHash SV c rv key =
              ((emptyTransaction,
                Some (ErrorsWrap e ''host did not accept transaction signature'')), c4))
       \<and> (incoming c3 = \<lparr>frameLen = n, payload = ObjString StopResponse\<rparr> # rest \<and>
          n \<le> NegotiateMaxErrorSize \<longrightarrow> e = ErrStopResponse)"
proof -
  note R = negotiateRevision_after_signature [OF assms, of SV]
  have "e = ErrStopResponse"
    if "incoming c3 = \<lparr>frameLen = n, payload = ObjString StopResponse\<rparr> # rest \<and>
        n \<le> NegotiateMaxErrorSize"
    using ReadNegotiationAcceptance_stop [of c3 n rest] that assms(4) by simp
  then show ?thesis
    by (auto simp: R)
qed

theorem negotiateRevision_stop_response_witness:
  "negotiateRevision sampleSigHash sampleSignHash sampleStandaloneValid
     (sampleConn [\<lparr>frameLen = 6, payload = ObjString ''accept''\<rparr>,
                  \<lparr>frameLen = 4, payload = ObjString ''stop''\<rparr>,
                  \<lparr>frameLen = 120, payload = ObjTxnSig sampleHostSig\<rparr>])
     sampleRevision [5] =
     ((\<lparr>FileContractRevisions = [sampleRevision],
        TransactionSignatures = [sampleRenterSig, sampleHostSig]\<rparr>, Some ErrStopResponse),
      (sampleConn [])\<lparr>outgoing := [ObjRevision sampleRevision, ObjTxnSig sampleRenterSig]\<rparr>)
   \<and> negotiateRevision sampleSigHash sampleSignHash sampleStandaloneValid
     (sampleConn [\<lparr>frameLen = 6, payload = ObjString ''accept''\<rparr>,
                  \<lparr>frameLen = 6, payload = ObjString ''reject''\<rparr>,
                  \<lparr>frameLen = 120, payload = ObjTxnSig sampleHostSig\<rparr>])
     sampleRevision [5] =
     ((emptyTransaction,
       Some (ErrorsWrap (ErrorsNew ''reject'') ''host did not accept transaction signature'')),
      (sampleConn [\<lparr>frameLen = 120, payload = ObjTxnSig sampleHostSig\<rparr>])
        \<lparr>outgoing := [ObjRevision sampleRevision, ObjTxnSig sampleRenterSig]\<rparr>)"
proof -
  let ?acc = "\<lparr>frameLen = 6, payload = ObjString ''accept''\<rparr>"
  let ?stop = "\<lparr>frameLen = 4, payload = ObjString ''stop''\<rparr>"
  let ?rej = "\<lparr>frameLen = 6, payload = ObjString ''reject''\<rparr>"
  let ?sig = "\<lparr>frameLen = 120, payload = ObjTxnSig sampleHostSig\<rparr>"
  let ?o1 = "[ObjRevision sampleRevision]"
  let ?o2 = "[ObjRevision sampleRevision, ObjTxnSig sampleRenterSig]"
  have w1: "WriteObject (sampleConn (?acc # fs)) (ObjRevision sampleRevision) =
              (None, (sampleConn (?acc # fs))\<lparr>outgoing := ?o1\<rparr>)" for fs
    by (simp add: WriteObject_def sampleConn_def)
  have a1: "ReadNegotiationAcceptance ((sampleConn (?acc # fs))\<lparr>outgoing := ?o1\<rparr>) =
              (None, (sampleConn fs)\<lparr>outgoing := ?o1\<rparr>)" for fs
    by (simp add: ReadNegotiationAcceptance_def ReadObject_def sampleConn_def
        NegotiateMaxErrorSize_def AcceptResponse_def)
  have w2: "WriteObject ((sampleConn fs)\<lparr>outgoing := ?o1\<rparr>)
              (ObjTxnSig (renterSignature sampleSigHash sampleSignHash sampleRevision [5])) =
              (None, (sampleConn fs)\<lparr>outgoing := ?o2\<rparr>)" for fs
    by (simp add: WriteObject_def sampleConn_def sampleRenterSig_def)
  have a2: "ReadNegotiationAcceptance ((sampleConn [?stop, ?sig])\<lparr>outgoing := ?o2\<rparr>) =
              (Some ErrStopResponse, (sampleConn [?sig])\<lparr>outgoing := ?o2\<rparr>)"
    by (simp add: ReadNegotiationAcceptance_def ReadObject_def sampleConn_def
        NegotiateMaxErrorSize_def AcceptResponse_def StopResponse_def)
  have a3: "ReadNegotiationAcceptance ((sampleConn [?rej, ?sig])\<lparr>outgoing := ?o2\<rparr>) =
              (Some (ErrorsNew ''reject''), (sampleConn [?sig])\<lparr>outgoing := ?o2\<rparr>)"
    by (simp add: ReadNegotiationAcceptance_def ReadObject_def sampleConn_def
        NegotiateMaxErrorSize_def AcceptResponse_def StopResponse_def)
  have rd: "readTxnSig ((sampleConn [?sig])\<lparr>outgoing := ?o2\<rparr>) 16000 =
              (Inr sampleHostSig, (sampleConn [])\<lparr>outgoing := ?o2\<rparr>)"
    by (simp add: readTxnSig_def ReadObject_def sampleConn_def)
  have sv: "sampleStandaloneValid
              \<lparr>FileContractRevisions = [sampleRevision],
               TransactionSignatures =
                 [renterSignature sampleSigHash sampleSignHash sampleRevision [5], sampleHostSig]\<rparr>
              (NewWindowStart sampleRevision - 1) = None"
    by (simp add: sampleStandaloneValid_def sampleRevision_def)
  have ne: "ErrorsNew ''reject'' \<noteq> ErrStopResponse" by simp
  from negotiateRevision_stop_response [OF w1 a1 w2 a2, of sampleHostSig
         "(sampleConn [])\<lparr>outgoing := ?o2\<rparr>" sampleStandaloneValid] rd sv
  have r1: "negotiateRevision sampleSigHash sampleSignHash sampleStandaloneValid
              (sampleConn [?acc, ?stop, ?sig]) sampleRevision [5] =
            ((\<lparr>FileContractRevisions = [sampleRevision],
               TransactionSignatures =
                 [renterSignature sampleSigHash sampleSignHash sampleRevision [5], sampleHostSig]\<rparr>,
              Some ErrStopResponse), (sampleConn [])\<lparr>outgoing := ?o2\<rparr>)"
    by blast
  from negotiateRevision_stop_response [OF w1 a1 w2 a3, of _ _ sampleStandaloneValid] ne
  have r2: "negotiateRevision sampleSigHash sampleSignHash sampleStandaloneValid
              (sampleConn [?acc, ?rej, ?sig]) sampleRevision [5] =
            ((emptyTransaction,
              Some (ErrorsWrap (ErrorsNew ''reject'') ''host did not accept transaction signature'')),
             (sampleConn [?sig])\<lparr>outgoing := ?o2\<rparr>)"
    by blast
  from r1 r2 show ?thesis by (simp add: sampleRenterSig_def)
qed

subsection \<open>C6: the handshake\<close>

lemma initiateRPC_verify_fails:
  assumes "DialTimeout addr = Inr c0"
      and "WriteObject (extendDeadline c0 NegotiateRecentRevisionTime) (ObjSpecifier rpc) = (None, c1)"
      and "fst (verifyRecentRevision SignHash VerifySigs UnlockHash c1 (Transaction contract)) = Inl e"
  shows "initiateRPC DialTimeout SignHash VerifySigs UnlockHash Transaction SyncWithHost
           addr rpc contract =
         (Inl (ErrorsWrap e ''could not verify most recent contract revision''), contract)"
  using assms
  by (cases "verifyRecentRevision SignHash VerifySigs UnlockHash c1 (Transaction contract)")
     (simp add: initiateRPC_def)

lemma initiateRPC_verify_ok:
  assumes "DialTimeout addr = Inr c0"
      and "WriteObject (extendDeadline c0 NegotiateRecentRevisionTime) (ObjSpecifier rpc) = (None, c1)"
      and "fst (verifyRecentRevision SignHash VerifySigs UnlockHash c1 (Transaction contract)) =
             Inr (hostRev, hostSigs)"
  shows "snd (initiateRPC DialTimeout SignHash VerifySigs UnlockHash Transaction SyncWithHost
           addr rpc contract) = snd (SyncWithHost contract hostRev hostSigs)"
  using assms
  by (cases "verifyRecentRevision SignHash VerifySigs UnlockHash c1 (Transaction contract)")
     (simp add: initiateRPC_def split: prod.splits option.splits)

lemma verifyRecentRevision_after_acceptance:
  assumes "WriteObject c1 (ObjHash (ID ct)) = (None, c2)"
      and "readHash c2 32 = (Inr challenge, c3)"
      and "WriteObject c3 (ObjSignature (SignHash (SecureWipe16 challenge) (RenterKey ct))) =
             (None, c4)"
      and "ReadNegotiationAcceptance c4 = (None, c5)"
      and "incoming c5 = \<lparr>frameLen = n1, payload = ObjRevision hostRev\<rparr> #
                         \<lparr>frameLen = n2, payload = ObjTxnSigs hostSigs\<rparr> # rest"
  shows "fst (verifyRecentRevision SignHash VerifySigs UnlockHash c1 ct) =
     (if 2048 < n1
      then Inl (ErrorsWrap (ErrIO ''length exceeds maxLen'') ''could not read host revision'')
      else if 2048 < n2
      then Inl (ErrorsWrap (ErrIO ''length exceeds maxLen'') ''could not read host signatures'')
      else case VerifySigs hostRev hostSigs (EndHeight ct - 1) of
             Some e \<Rightarrow> Inl (ErrorsWrap e ''host sent invalid transaction'')
           | None \<Rightarrow>
               if UnlockHash (RevUnlockConditions hostRev) \<noteq>
                  UnlockHash (RevUnlockConditions (CurrentRevision ct))
               then Inl (ErrorsNew ''unlock conditions do not match'')
               else Inr (hostRev, hostSigs))"
  using assms
  by (simp add: verifyRecentRevision_def readRevision_def readTxnSigs_def ReadObject_def
      split: option.splits)

text \<open>
  C6. Take a handshake that has reached the point where the host's revision and signatures
  arrive: the dial succeeded, the RPC specifier, the contract ID and the challenge response
  were written, the challenge was read and the host accepted. Then the revision and the
  signature list are each read with a limit of 2048 bytes (a longer one fails the
  handshake), the signatures are verified at height \<open>EndHeight - 1\<close>, and if the unlock
  hash of the host's revision differs from that of the contract's current revision the
  handshake fails with the "unlock conditions do not match" error. In every one of these
  failures, and whenever the unlock hashes differ, \<open>initiateRPC\<close> returns the error with
  the contract as it was, whatever \<open>SyncWithHost\<close> does: it has not run. Only when the
  checks pass is the contract what \<open>SyncWithHost\<close> makes of it.
\<close>

theorem handshake_unlock_hash_mismatch:
  assumes "DialTimeout addr = Inr c0"
      and "WriteObject (extendDeadline c0 NegotiateRecentRevisionTime) (ObjSpecifier rpc) = (None, c1)"
      and "WriteObject c1 (ObjHash (ID (Transaction contract))) = (None, c2)"
      and "readHash c2 32 = (Inr challenge, c3)"
      and "WriteObject c3 (ObjSignature (SignHash (SecureWipe16 challenge)
                                            (RenterKey (Transaction contract)))) = (None, c4)"
      and "ReadNegotiationAcceptance c4 = (None, c5)"
      and "incoming c5 = \<lparr>frameLen = n1, payload = ObjRevision hostRev\<rparr> #
                         \<lparr>frameLen = n2, payload = ObjTxnSigs hostSigs\<rparr> # rest"
  shows "(2048 < n1 \<longrightarrow>
            initiateRPC DialTimeout SignHash VerifySigs UnlockHash Transaction SyncWithHost
              addr rpc contract =
            (Inl (ErrorsWrap (ErrorsWrap (ErrIO ''length exceeds maxLen'')
                                ''could not read host revision'')
                    ''could not verify most recent contract revision''), contract))
       \<and> (n1 \<le> 2048 \<and> 2048 < n2 \<longrightarrow>
            initiateRPC DialTimeout SignHash VerifySigs UnlockHash Transaction SyncWithHost
              addr rpc contract =
            (Inl (ErrorsWrap (ErrorsWrap (ErrIO ''length exceeds maxLen'')
                                ''could not read host signatures'')
                    ''could not verify most recent contract revision''), contract))
       \<and> (n1 \<le> 2048 \<and> n2 \<le> 2048 \<and>
          VerifySigs hostRev hostSigs (EndHeight (Transaction contract) - 1) = Some e \<longrightarrow>
            initiateRPC DialTimeout SignHash VerifySigs UnlockHash Transaction SyncWithHost
              addr rpc contract =
            (Inl (ErrorsWrap (ErrorsWrap e ''host sent invalid transaction'')
                    ''could not verify most recent contract revision''), contract))
       \<and> (n1 \<le> 2048 \<and> n2 \<le> 2048 \<and>
          VerifySigs hostRev hostSigs (EndHeight (Transaction contract) - 1) = None \<and>
          UnlockHash (RevUnlockConditions hostRev) \<noteq>
            UnlockHash (RevUnlockConditions (CurrentRevision (Transaction contract))) \<longrightarrow>
            fst (verifyRecentRevision SignHash VerifySigs UnlockHash c1 (Transaction contract)) =
              Inl (ErrorsNew ''unlock conditions do not match'') \<and>
            initiateRPC DialTimeout SignHash VerifySigs UnlockHash Transaction SyncWithHost
              addr rpc contract =
            (Inl (ErrorsWrap (ErrorsNew ''unlock conditions do not match'')
                    ''could not verify most recent contract revision''), contract))
       \<and> (n1 \<le> 2048 \<and> n2 \<le> 2048 \<and>
          VerifySigs hostRev hostSigs (EndHeight (Transaction contract) - 1) = None \<and>
          UnlockHash (RevUnlockConditions hostRev) =
            UnlockHash (RevUnlockConditions (CurrentRevision (Transaction contract))) \<longrightarrow>
            snd (initiateRPC DialTimeout SignHash VerifySigs UnlockHash Transaction SyncWithHost
                   addr rpc contract) = snd (SyncWithHost contract hostRev hostSigs))
       \<and> (UnlockHash (RevUnlockConditions hostRev) \<noteq>
            UnlockHash (RevUnlockConditions (CurrentRevision (Transaction contract))) \<longrightarrow>
            (\<exists>err. initiateRPC DialTimeout SignHash VerifySigs UnlockHash Transaction SyncWithHost
                     addr rpc contract = (Inl err, contract)))"
proof -
  note V = verifyRecentRevision_after_acceptance
             [where SignHash = SignHash and ct = "Transaction contract" and VerifySigs = VerifySigs
                and UnlockHash = UnlockHash, OF assms(3-7)]
  note F = initiateRPC_verify_fails
             [where SignHash = SignHash and VerifySigs = VerifySigs and UnlockHash = UnlockHash
                and Transaction = Transaction and contract = contract
                and SyncWithHost = SyncWithHost and DialTimeout = DialTimeout and addr = addr,
              OF assms(1,2)]
  note S = initiateRPC_verify_ok
             [where SignHash = SignHash and VerifySigs = VerifySigs and UnlockHash = UnlockHash
                and Transaction = Transaction and contract = contract and hostRev = hostRev
                and hostSigs = hostSigs and SyncWithHost = SyncWithHost
                and DialTimeout = DialTimeout and addr = addr, OF assms(1,2)]
  show ?thesis
  proof (intro conjI impI)
    assume "2048 < n1"
    then show "initiateRPC DialTimeout SignHash VerifySigs UnlockHash Transaction SyncWithHost
              addr rpc contract =
            (Inl (ErrorsWrap (ErrorsWrap (ErrIO ''length exceeds maxLen'')
                                ''could not read host revision'')
                    ''could not verify most recent contract revision''), contract)"
      by (intro F) (simp add: V)
  next
    assume "n1 \<le> 2048 \<and> 2048 < n2"
    then show "initiateRPC DialTimeout SignHash VerifySigs UnlockHash Transaction SyncWithHost
              addr rpc contract =
            (Inl (ErrorsWrap (ErrorsWrap (ErrIO ''length exceeds maxLen'')
                                ''could not read host signatures'')
                    ''could not verify most recent contract revision''), contract)"
      by (intro F) (simp add: V)
  next
    assume "n1 \<le> 2048 \<and> n2 \<le> 2048 \<and>
          VerifySigs hostRev hostSigs (EndHeight (Transaction contract) - 1) = Some e"
    then show "initiateRPC DialTimeout SignHash VerifySigs UnlockHash Transaction SyncWithHost
              addr rpc contract =
            (Inl (ErrorsWrap (ErrorsWrap e ''host sent invalid transaction'')
                    ''could not verify most recent contract revision''), contract)"
      by (intro F) (simp add: V)
  next
    assume h: "n1 \<le> 2048 \<and> n2 \<le> 2048 \<and>
          VerifySigs hostRev hostSigs (EndHeight (Transaction contract) - 1) = None \<and>
          UnlockHash (RevUnlockConditions hostRev) \<noteq>
            UnlockHash (RevUnlockConditions (CurrentRevision (Transaction contract)))"
    then show m: "fst (verifyRecentRevision SignHash VerifySigs UnlockHash c1 (Transaction contract)) =
              Inl (ErrorsNew ''unlock conditions do not match'')"
      by (simp add: V)
    show "initiateRPC DialTimeout SignHash VerifySigs UnlockHash Transaction SyncWithHost
              addr rpc contract =
            (Inl (ErrorsWrap (ErrorsNew ''unlock conditions do not match'')
                    ''could not verify most recent contract revision''), contract)"
      by (rule F [OF m])
  next
    assume "n1 \<le> 2048 \<and> n2 \<le> 2048 \<and>
          VerifySigs hostRev hostSigs (EndHeight (Transaction contract) - 1) = None \<and>
          UnlockHash (RevUnlockConditions hostRev) =
            UnlockHash (RevUnlockConditions (CurrentRevision (Transaction contract)))"
    then show "snd (initiateRPC DialTimeout SignHash VerifySigs UnlockHash Transaction SyncWithHost
                   addr rpc contract) = snd (SyncWithHost contract hostRev hostSigs)"
      by (intro S) (simp add: V)
  next
    assume "UnlockHash (RevUnlockConditions hostRev) \<noteq>
            UnlockHash (RevUnlockConditions (CurrentRevision (Transaction contract)))"
    then have "\<exists>err. fst (verifyRecentRevision SignHash VerifySigs UnlockHash c1
                            (Transaction contract)) = Inl err"
      by (simp add: V split: option.splits)
    then show "\<exists>err. initiateRPC DialTimeout SignHash VerifySigs UnlockHash Transaction
                     SyncWithHost addr rpc contract = (Inl err, contract)"
      using F by blast
  qed
qed

theorem handshake_unlock_hash_mismatch_witness:
  "initiateRPC (sampleDial (sampleHandshake sampleForeignRevision)) sampleSignHash
     sampleVerifySigs sampleUnlockHash sampleTransaction sampleSyncWithHost
     ''host.example:9982'' ''ReviseContract'' sampleContract =
     (Inl (ErrorsWrap (ErrorsNew ''unlock conditions do not match'')
             ''could not verify most recent contract revision''), sampleContract)
   \<and> snd (initiateRPC (sampleDial (sampleHandshake (sampleRevision\<lparr>NewRevisionNumber := 9\<rparr>)))
          sampleSignHash sampleVerifySigs sampleUnlockHash sampleTransaction sampleSyncWithHost
          ''host.example:9982'' ''ReviseContract'' sampleContract) =
     sampleContract\<lparr>CurrentRevision := sampleRevision\<lparr>NewRevisionNumber := 9\<rparr>\<rparr>"
proof -
  let ?c = "\<lambda>fs outs d. \<lparr>incoming = fs, outgoing = outs, writeErrs = [], deadline = d,
                          closed = False\<rparr>"
  let ?spec = "ObjSpecifier ''ReviseContract''"
  let ?id = "ObjHash (ID (sampleTransaction sampleContract))"
  let ?sg = "ObjSignature (sampleSignHash (SecureWipe16 (replicate 32 3))
                             (RenterKey (sampleTransaction sampleContract)))"
  let ?D = NegotiateRecentRevisionTime
  have dial: "sampleDial (sampleHandshake hr) ''host.example:9982'' =
                Inr (?c (sampleHandshake hr) [] NoDeadline)" for hr
    by (simp add: sampleDial_def sampleConn_def)
  have w0: "WriteObject (extendDeadline (?c (sampleHandshake hr) [] NoDeadline) ?D) ?spec =
              (None, ?c (sampleHandshake hr) [?spec] ?D)" for hr
    by (simp add: WriteObject_def extendDeadline_def)
  have w1: "WriteObject (?c (sampleHandshake hr) [?spec] ?D) ?id =
              (None, ?c (sampleHandshake hr) [?spec, ?id] ?D)" for hr
    by (simp add: WriteObject_def)
  have r1: "readHash (?c (sampleHandshake hr) [?spec, ?id] ?D) 32 =
              (Inr (replicate 32 3), ?c (tl (sampleHandshake hr)) [?spec, ?id] ?D)" for hr
    by (simp add: readHash_def ReadObject_def sampleHandshake_def)
  have w2: "WriteObject (?c (tl (sampleHandshake hr)) [?spec, ?id] ?D) ?sg =
              (None, ?c (tl (sampleHandshake hr)) [?spec, ?id, ?sg] ?D)" for hr
    by (simp add: WriteObject_def)
  have ac: "ReadNegotiationAcceptance (?c (tl (sampleHandshake hr)) [?spec, ?id, ?sg] ?D) =
              (None, ?c (tl (tl (sampleHandshake hr))) [?spec, ?id, ?sg] ?D)" for hr
    by (simp add: ReadNegotiationAcceptance_def ReadObject_def sampleHandshake_def
        NegotiateMaxErrorSize_def AcceptResponse_def)
  have inc: "incoming (?c (tl (tl (sampleHandshake hr))) [?spec, ?id, ?sg] ?D) =
               \<lparr>frameLen = 400, payload = ObjRevision hr\<rparr> #
               \<lparr>frameLen = 250, payload = ObjTxnSigs [sampleHostSig]\<rparr> # []" for hr
    by (simp add: sampleHandshake_def)
  have vs: "sampleVerifySigs hr [sampleHostSig] (EndHeight (sampleTransaction sampleContract) - 1)
              = None" for hr
    by (simp add: sampleVerifySigs_def sampleTransaction_def sampleContract_def)
  have ne: "sampleUnlockHash (RevUnlockConditions sampleForeignRevision) \<noteq>
            sampleUnlockHash (RevUnlockConditions (CurrentRevision (sampleTransaction sampleContract)))"
    by (simp add: sampleUnlockHash_def sampleForeignRevision_def sampleTransaction_def
        sampleContract_def sampleRevision_def)
  have eq: "sampleUnlockHash (RevUnlockConditions (sampleRevision\<lparr>NewRevisionNumber := 9\<rparr>)) =
            sampleUnlockHash (RevUnlockConditions (CurrentRevision (sampleTransaction sampleContract)))"
    by (simp add: sampleTransaction_def sampleContract_def)
  have sizes: "(400 :: nat) \<le> 2048 \<and> (250 :: nat) \<le> 2048" by simp
  from handshake_unlock_hash_mismatch
         [where DialTimeout = "sampleDial (sampleHandshake sampleForeignRevision)"
            and SignHash = sampleSignHash and Transaction = sampleTransaction
            and contract = sampleContract and VerifySigs = sampleVerifySigs
            and UnlockHash = sampleUnlockHash and SyncWithHost = sampleSyncWithHost,
          OF dial w0 w1 r1 w2 ac inc] sizes vs ne
  have res1: "initiateRPC (sampleDial (sampleHandshake sampleForeignRevision)) sampleSignHash
     sampleVerifySigs sampleUnlockHash sampleTransaction sampleSyncWithHost
     ''host.example:9982'' ''ReviseContract'' sampleContract =
     (Inl (ErrorsWrap (ErrorsNew ''unlock conditions do not match'')
             ''could not verify most recent contract revision''), sampleContract)"
    by blast
  from handshake_unlock_hash_mismatch
         [where DialTimeout = "sampleDial (sampleHandshake (sampleRevision\<lparr>NewRevisionNumber := 9\<rparr>))"
            and SignHash = sampleSignHash and Transaction = sampleTransaction
            and contract = sampleContract and VerifySigs = sampleVerifySigs
            and UnlockHash = sampleUnlockHash and SyncWithHost = sampleSyncWithHost,
          OF dial w0 w1 r1 w2 ac inc] sizes vs eq
  have "snd (initiateRPC (sampleDial (sampleHandshake (sampleRevision\<lparr>NewRevisionNumber := 9\<rparr>)))
          sampleSignHash sampleVerifySigs sampleUnlockHash sampleTransaction sampleSyncWithHost
          ''host.example:9982'' ''ReviseContract'' sampleContract) =
        snd (sampleSyncWithHost sampleContract (sampleRevision\<lparr>NewRevisionNumber := 9\<rparr>)
               [sampleHostSig])"
    by blast
  then have res2: "snd (initiateRPC (sampleDial (sampleHandshake (sampleRevision\<lparr>NewRevisionNumber := 9\<rparr>)))
          sampleSignHash sampleVerifySigs sampleUnlockHash sampleTransaction sampleSyncWithHost
          ''host.example:9982'' ''ReviseContract'' sampleContract) =
     sampleContract\<lparr>CurrentRevision := sampleRevision\<lparr>NewRevisionNumber := 9\<rparr>\<rparr>"
    by (simp add: sampleSyncWithHost_def)
  from res1 res2 show ?thesis by simp
qed

subsection \<open>C7: segment indices of distinct chunks\<close>

lemma unat_nonneg_sint:
  fixes w :: "64 word"
  assumes "0 \<le> sint w"
  shows "int (unat w) = sint w"
proof -
  have w: "word_of_int (sint w) = w" by simp
  have "uint (word_of_int (sint w) :: 64 word) = sint w mod 2 ^ LENGTH(64)"
    by (rule uint_word_of_int)
  then have u: "uint w = sint w mod 2 ^ 64" by (simp only: w) simp
  have "sint w < 2 ^ (LENGTH(64) - 1)" by (rule sint_lt)
  then have "sint w < 2 ^ 63" by simp
  moreover have "(2 :: int) ^ 63 < 2 ^ 64" by simp
  ultimately have "sint w < 2 ^ 64" by (rule less_trans)
  with assms have "sint w mod 2 ^ 64 = sint w" by (rule mod_pos_pos_trivial)
  with u have "uint w = sint w" by (simp only:)
  then show ?thesis by (simp only: uint_nat)
qed

lemma unat_startIndex:
  fixes i :: "64 word"
  assumes "unat i < 2 ^ 48"
  shows "unat (startIndex i) = unat i * SegmentsPerSector"
proof -
  have u: "unat (of_nat SegmentsPerSector :: 64 word) = 65536"
    by (simp add: SegmentsPerSector_def)
  have "unat i * 65536 < 2 ^ 48 * 65536" using assms by simp
  then have "unat i * unat (of_nat SegmentsPerSector :: 64 word) < 2 ^ LENGTH(64)"
    by (simp add: u)
  then have "unat (i * of_nat SegmentsPerSector) = unat i * unat (of_nat SegmentsPerSector :: 64 word)"
    by (simp only: unat_mult_lem)
  then show ?thesis by (simp add: startIndex_def u SegmentsPerSector_def)
qed

lemma unat_segment:
  fixes s :: "64 word"
  assumes "unat s + k < 2 ^ 64"
  shows "unat (s + of_nat k) = unat s + k"
proof -
  have k: "unat (of_nat k :: 64 word) = k"
    using assms by (simp add: of_nat_inverse)
  then have "unat s + unat (of_nat k :: 64 word) < 2 ^ LENGTH(64)"
    using assms by simp
  then have "unat (s + of_nat k) = unat s + unat (of_nat k :: 64 word)"
    by (simp only: unat_add_lem)
  then show ?thesis by (simp add: k)
qed

lemma chunk_ranges_disjoint_nat:
  fixes a b :: nat
  assumes "a \<noteq> b"
  shows "{a * 65536 ..< a * 65536 + 65536} \<inter> {b * 65536 ..< b * 65536 + 65536} = {}"
proof -
  have "a < b \<or> b < a" using assms by auto
  then show ?thesis
  proof
    assume "a < b"
    then have "Suc a \<le> b" by simp
    then have "Suc a * 65536 \<le> b * 65536" by (rule mult_le_mono1)
    then show ?thesis by auto
  next
    assume "b < a"
    then have "Suc b \<le> a" by simp
    then have "Suc b * 65536 \<le> a * 65536" by (rule mult_le_mono1)
    then show ?thesis by auto
  qed
qed

lemma segmentIndices_range:
  fixes s :: "64 word"
  assumes "unat s + n \<le> 2 ^ 64"
  shows "unat ` set (segmentIndices s n) = {unat s ..< unat s + n}"
proof -
  have "unat (s + of_nat k) = unat s + k" if "k < n" for k
    using that assms by (intro unat_segment) simp
  then have "(\<lambda>k. unat (s + of_nat k)) ` {0..<n} = (\<lambda>k. unat s + k) ` {0..<n}"
    by (intro image_cong) simp_all
  moreover have "unat ` set (segmentIndices s n) = (\<lambda>k. unat (s + of_nat k)) ` {0..<n}"
    by (simp add: segmentIndices_def image_image)
  ultimately have "unat ` set (segmentIndices s n) = (\<lambda>k. unat s + k) ` {0..<n}"
    by (simp only:)
  also have "\<dots> = {unat s ..< unat s + n}"
  proof (intro set_eqI iffI)
    fix x assume "x \<in> (\<lambda>k. unat s + k) ` {0..<n}"
    then show "x \<in> {unat s ..< unat s + n}" by auto
  next
    fix x assume "x \<in> {unat s ..< unat s + n}"
    then have "x - unat s \<in> {0..<n}" and "x = unat s + (x - unat s)" by auto
    then show "x \<in> (\<lambda>k. unat s + k) ` {0..<n}" by blast
  qed
  finally show ?thesis .
qed

lemma take_copy_slice:
  "length src \<le> length dst \<Longrightarrow> take (length src) (copy_slice dst src) = src"
  by (simp add: copy_slice_def)

lemma Append_calls_cipher:
  assumes "Append E H rnd data key ci b = (None, b1)"
  shows "sector b1 =
           take (sectorLen b) (sector b) @
           copy_slice (data @ fastrand_Read rnd (padding_of (length data)))
             (E key (data @ fastrand_Read rnd (padding_of (length data))) (startIndex ci)) @
           drop (sectorLen b + length (data @ fastrand_Read rnd (padding_of (length data))))
             (sector b)"
proof -
  let ?n = "length data + padding_of (length data)"
  let ?s0 = "take ?n (drop (sectorLen b) (sector b))"
  from assms have le: "sectorLen b \<le> length (sector b)"
    and fit: "?n \<le> length (sector b) - sectorLen b"
    by (auto simp: Append_def Let_def split: if_splits)
  have l0: "length ?s0 = ?n" using le fit by simp
  have l1: "length (copy_slice ?s0 data) = ?n" by (simp only: length_copy_slice l0)
  have t1: "take (length data) (copy_slice ?s0 data) = data"
    by (rule take_copy_slice) (use l0 in linarith)
  have s2: "take (length data) (copy_slice ?s0 data) @
              fastrand_Read rnd (length (copy_slice ?s0 data) - length data) =
            data @ fastrand_Read rnd (padding_of (length data))"
    by (simp only: t1 l1) simp
  from assms le fit have "b1 =
      b\<lparr>sector := take (sectorLen b) (sector b) @
            copy_slice (data @ fastrand_Read rnd (padding_of (length data)))
              (E key (data @ fastrand_Read rnd (padding_of (length data))) (startIndex ci)) @
            drop (sectorLen b +
                  length (copy_slice (data @ fastrand_Read rnd (padding_of (length data)))
                    (E key (data @ fastrand_Read rnd (padding_of (length data))) (startIndex ci))))
              (sector b),
         slices := slices b @
            [\<lparr>Offset = of_nat (sectorLen b), Length = of_nat (length data),
              Checksum = H data, MerkleRoot = replicate 32 0\<rparr>],
         sectorLen := sectorLen b +
            length (copy_slice (data @ fastrand_Read rnd (padding_of (length data)))
              (E key (data @ fastrand_Read rnd (padding_of (length data))) (startIndex ci)))\<rparr>"
    unfolding Append_def Let_def s2 by (simp split: if_splits)
  then show ?thesis by (simp add: length_copy_slice)
qed

lemma Append_plaintext_length:
  assumes "Append E H rnd data key ci b = (None, b1)"
  shows "length (data @ fastrand_Read rnd (padding_of (length data))) =
           round_up (length data) SegmentSize"
    and "length (data @ fastrand_Read rnd (padding_of (length data))) \<le> SectorSize"
  using assms
  by (auto simp: Append_def Let_def length_fastrand_Read padded_round_up [symmetric]
      split: if_splits)

lemma EncryptSegments_indices_count:
  assumes "length plaintext \<le> SectorSize"
  shows "length (EncryptSegments_indices plaintext start) \<le> SegmentsPerSector"
proof -
  have "length plaintext div 64 \<le> 4194304 div 64"
    using assms unfolding SectorSize_def by (rule div_le_mono)
  then show ?thesis
    by (simp add: EncryptSegments_indices_def segmentIndices_def SegmentSize_def
        SegmentsPerSector_def)
qed


text \<open>
  C7. For two distinct chunk indices \<open>i\<close> and \<open>j\<close> with \<open>0 \<le> i, j < 2 ^ 48\<close> (as \<^verbatim>\<open>int64\<close>
  values), the start index \<open>i * SegmentsPerSector\<close> is computed without wrap-around and the
  ranges of \<open>SegmentsPerSector\<close> indices starting at the two start indices are disjoint.
  Every successful \<open>Append\<close> for chunk \<open>i\<close> writes into the sector what the cipher returns
  for the data and its padding at start index \<open>startIndex i\<close>; that plaintext is the data
  length rounded up to the segment size, so the call uses at most \<open>SegmentsPerSector\<close>
  segment indices, all inside the chunk's range. The indices used by an \<open>Append\<close> for chunk
  \<open>i\<close> and by one for chunk \<open>j\<close> therefore have nothing in common.
\<close>

theorem chunk_segment_ranges_disjoint:
  fixes i j :: "64 word"
  assumes "i \<noteq> j" and "0 \<le> sint i" and "sint i < 2 ^ 48" and "0 \<le> sint j" and "sint j < 2 ^ 48"
  shows "unat (startIndex i) = nat (sint i) * SegmentsPerSector
       \<and> unat (startIndex j) = nat (sint j) * SegmentsPerSector
       \<and> {unat (startIndex i) ..< unat (startIndex i) + SegmentsPerSector} \<inter>
         {unat (startIndex j) ..< unat (startIndex j) + SegmentsPerSector} = {}
       \<and> (Append E H rnd data key i b = (None, b1) \<longrightarrow>
            sector b1 =
              take (sectorLen b) (sector b) @
              copy_slice (data @ fastrand_Read rnd (padding_of (length data)))
                (E key (data @ fastrand_Read rnd (padding_of (length data))) (startIndex i)) @
              drop (sectorLen b + length (data @ fastrand_Read rnd (padding_of (length data))))
                (sector b) \<and>
            length (data @ fastrand_Read rnd (padding_of (length data))) =
              round_up (length data) SegmentSize \<and>
            length (EncryptSegments_indices
                      (data @ fastrand_Read rnd (padding_of (length data))) (startIndex i))
              \<le> SegmentsPerSector \<and>
            unat ` set (EncryptSegments_indices
                          (data @ fastrand_Read rnd (padding_of (length data))) (startIndex i))
              \<subseteq> {unat (startIndex i) ..< unat (startIndex i) + SegmentsPerSector})
       \<and> (Append E H rnd data key i b = (None, b1) \<and>
          Append E' H' rnd' data' key' j b' = (None, b1') \<longrightarrow>
            set (EncryptSegments_indices
                   (data @ fastrand_Read rnd (padding_of (length data))) (startIndex i)) \<inter>
            set (EncryptSegments_indices
                   (data' @ fastrand_Read rnd' (padding_of (length data'))) (startIndex j)) = {})"
proof -
  have ui: "unat i = nat (sint i)" and uj: "unat j = nat (sint j)"
    using unat_nonneg_sint [OF assms(2)] unat_nonneg_sint [OF assms(4)] by linarith+
  have bi: "unat i < 2 ^ 48" and bj: "unat j < 2 ^ 48"
    using assms(2-5) ui uj by (simp_all add: nat_less_iff)
  have si: "unat (startIndex i) = unat i * 65536" and sj: "unat (startIndex j) = unat j * 65536"
    using unat_startIndex [OF bi] unat_startIndex [OF bj] by (simp_all add: SegmentsPerSector_def)
  have ne: "unat i \<noteq> unat j"
    using assms(1) by (simp add: word_unat_eq_iff)
  have disj: "{unat (startIndex i) ..< unat (startIndex i) + SegmentsPerSector} \<inter>
         {unat (startIndex j) ..< unat (startIndex j) + SegmentsPerSector} = {}"
    using chunk_ranges_disjoint_nat [OF ne] by (simp only: si sj SegmentsPerSector_def)
  have within: "length (EncryptSegments_indices
                          (d @ fastrand_Read r0 (padding_of (length d))) (startIndex k))
                  \<le> SegmentsPerSector \<and>
                unat ` set (EncryptSegments_indices
                              (d @ fastrand_Read r0 (padding_of (length d))) (startIndex k)) \<subseteq>
                  {unat (startIndex k) ..< unat (startIndex k) + SegmentsPerSector}"
    if ok: "Append E0 H0 r0 d key0 k b0 = (None, b0')" and bk: "unat k < 2 ^ 48"
    for E0 H0 r0 d key0 k b0 b0'
  proof -
    let ?p = "d @ fastrand_Read r0 (padding_of (length d))"
    let ?n = "length ?p div SegmentSize"
    have cnt: "length (EncryptSegments_indices ?p (startIndex k)) \<le> SegmentsPerSector"
      by (rule EncryptSegments_indices_count [OF Append_plaintext_length(2) [OF ok]])
    then have n: "?n \<le> 65536"
      by (simp add: EncryptSegments_indices_def segmentIndices_def SegmentsPerSector_def)
    have "Suc (unat k) \<le> 2 ^ 48" using bk by simp
    then have "Suc (unat k) * 65536 \<le> 2 ^ 48 * 65536" by (rule mult_le_mono1)
    then have "unat k * 65536 + 65536 \<le> 2 ^ 64" by simp
    with n have fit: "unat (startIndex k) + ?n \<le> 2 ^ 64"
      using unat_startIndex [OF bk] by (simp add: SegmentsPerSector_def)
    have "unat ` set (EncryptSegments_indices ?p (startIndex k)) =
            {unat (startIndex k) ..< unat (startIndex k) + ?n}"
      unfolding EncryptSegments_indices_def by (rule segmentIndices_range [OF fit])
    with n cnt show ?thesis by (auto simp: SegmentsPerSector_def)
  qed
  have sep: "set (EncryptSegments_indices
                   (data @ fastrand_Read rnd (padding_of (length data))) (startIndex i)) \<inter>
            set (EncryptSegments_indices
                   (data' @ fastrand_Read rnd' (padding_of (length data'))) (startIndex j)) = {}"
    if oki: "Append E H rnd data key i b = (None, b1)"
      and okj: "Append E' H' rnd' data' key' j b' = (None, b1')"
  proof (rule ccontr)
    assume "set (EncryptSegments_indices
                   (data @ fastrand_Read rnd (padding_of (length data))) (startIndex i)) \<inter>
            set (EncryptSegments_indices
                   (data' @ fastrand_Read rnd' (padding_of (length data'))) (startIndex j)) \<noteq> {}"
    then obtain x where
      xi: "x \<in> set (EncryptSegments_indices
                       (data @ fastrand_Read rnd (padding_of (length data))) (startIndex i))" and
      xj: "x \<in> set (EncryptSegments_indices
                       (data' @ fastrand_Read rnd' (padding_of (length data'))) (startIndex j))"
      by blast
    from xi within [OF oki bi]
    have "unat x \<in> {unat (startIndex i) ..< unat (startIndex i) + SegmentsPerSector}" by blast
    moreover from xj within [OF okj bj]
    have "unat x \<in> {unat (startIndex j) ..< unat (startIndex j) + SegmentsPerSector}" by blast
    ultimately show False using disj by blast
  qed
  show ?thesis
  proof (intro conjI impI)
    show "unat (startIndex i) = nat (sint i) * SegmentsPerSector"
      using si ui by (simp add: SegmentsPerSector_def)
    show "unat (startIndex j) = nat (sint j) * SegmentsPerSector"
      using sj uj by (simp add: SegmentsPerSector_def)
    show "{unat (startIndex i) ..< unat (startIndex i) + SegmentsPerSector} \<inter>
         {unat (startIndex j) ..< unat (startIndex j) + SegmentsPerSector} = {}"
      by (rule disj)
  next
    assume ok: "Append E H rnd data key i b = (None, b1)"
    show "sector b1 =
              take (sectorLen b) (sector b) @
              copy_slice (data @ fastrand_Read rnd (padding_of (length data)))
                (E key (data @ fastrand_Read rnd (padding_of (length data))) (startIndex i)) @
              drop (sectorLen b + length (data @ fastrand_Read rnd (padding_of (length data))))
                (sector b)"
      by (rule Append_calls_cipher [OF ok])
    show "length (data @ fastrand_Read rnd (padding_of (length data))) =
              round_up (length data) SegmentSize"
      by (rule Append_plaintext_length(1) [OF ok])
    show "length (EncryptSegments_indices
                      (data @ fastrand_Read rnd (padding_of (length data))) (startIndex i))
              \<le> SegmentsPerSector"
      using within [OF ok bi] by blast
    show "unat ` set (EncryptSegments_indices
                          (data @ fastrand_Read rnd (padding_of (length data))) (startIndex i))
              \<subseteq> {unat (startIndex i) ..< unat (startIndex i) + SegmentsPerSector}"
      using within [OF ok bi] by blast
  next
    assume "Append E H rnd data key i b = (None, b1) \<and>
          Append E' H' rnd' data' key' j b' = (None, b1')"
    then show "set (EncryptSegments_indices
                   (data @ fastrand_Read rnd (padding_of (length data))) (startIndex i)) \<inter>
            set (EncryptSegments_indices
                   (data' @ fastrand_Read rnd' (padding_of (length data'))) (startIndex j)) = {}"
      using sep by blast
  qed
qed


theorem chunk_segment_ranges_disjoint_witness:
  "fst (Append sampleCipher sampleHash sampleRnd [65, 66, 67] [1] 281474976710655
          zeroSectorBuilder) = None
   \<and> unat (startIndex 281474976710655) = 18446744073709486080
   \<and> unat (startIndex 1) = 65536
   \<and> {18446744073709486080 ..< 18446744073709551616} \<inter> {65536 ..< 131072 :: nat} = {}
   \<and> take 3 (sector (snd (Append sampleCipher sampleHash sampleRnd [65, 66, 67] [1]
                             281474976710655 zeroSectorBuilder))) = [66, 67, 68]
   \<and> EncryptSegments_indices ([65, 66, 67] @ fastrand_Read sampleRnd (padding_of 3))
        (startIndex 281474976710655) = [18446744073709486080]
   \<and> EncryptSegments_indices ([68, 69, 70, 71, 72] @ fastrand_Read sampleRnd (padding_of 5))
        (startIndex 1) = [65536]
   \<and> set (EncryptSegments_indices ([65, 66, 67] @ fastrand_Read sampleRnd (padding_of 3))
            (startIndex 281474976710655)) \<inter>
     set (EncryptSegments_indices ([68, 69, 70, 71, 72] @ fastrand_Read sampleRnd (padding_of 5))
            (startIndex 1)) = {}"
proof -
  let ?i = "281474976710655 :: 64 word"
  let ?d1 = "[65 :: byte, 66, 67]"
  let ?d2 = "[68 :: byte, 69, 70, 71, 72]"
  have h: "?i \<noteq> 1" "0 \<le> sint ?i" "sint ?i < 2 ^ 48"
          "0 \<le> sint (1 :: 64 word)" "sint (1 :: 64 word) < 2 ^ 48"
    by simp_all
  have s: "nat (sint ?i) = 281474976710655" "nat (sint (1 :: 64 word)) = 1"
    by simp_all
  have f1: "fst (Append sampleCipher sampleHash sampleRnd ?d1 [1] ?i zeroSectorBuilder) = None"
    by (rule Append_total)
       (simp_all add: zeroSectorBuilder_def round_up_def SegmentSize_def SectorSize_def)
  have f2: "fst (Append sampleCipher sampleHash sampleRnd ?d2 [1] 1 zeroSectorBuilder) = None"
    by (rule Append_total)
       (simp_all add: zeroSectorBuilder_def round_up_def SegmentSize_def SectorSize_def)
  have a1: "Append sampleCipher sampleHash sampleRnd ?d1 [1] ?i zeroSectorBuilder =
              (None, snd (Append sampleCipher sampleHash sampleRnd ?d1 [1] ?i zeroSectorBuilder))"
    using f1 by (metis prod.collapse)
  have a2: "Append sampleCipher sampleHash sampleRnd ?d2 [1] 1 zeroSectorBuilder =
              (None, snd (Append sampleCipher sampleHash sampleRnd ?d2 [1] 1 zeroSectorBuilder))"
    using f2 by (metis prod.collapse)
  have p3: "padding_of 3 = 61" and p5: "padding_of 5 = 59"
    by (simp_all add: padding_of_def SegmentSize_def)
  note T = chunk_segment_ranges_disjoint [OF h, of sampleCipher sampleHash sampleRnd ?d1 "[1]"
             zeroSectorBuilder _ sampleCipher sampleHash sampleRnd ?d2 "[1]" zeroSectorBuilder]
  from T a1 have sec: "sector (snd (Append sampleCipher sampleHash sampleRnd ?d1 [1] ?i
                                      zeroSectorBuilder)) =
      take (sectorLen zeroSectorBuilder) (sector zeroSectorBuilder) @
      copy_slice (?d1 @ fastrand_Read sampleRnd (padding_of (length ?d1)))
        (sampleCipher [1] (?d1 @ fastrand_Read sampleRnd (padding_of (length ?d1)))
           (startIndex ?i)) @
      drop (sectorLen zeroSectorBuilder +
            length (?d1 @ fastrand_Read sampleRnd (padding_of (length ?d1))))
        (sector zeroSectorBuilder)"
    by blast
  have t3: "take 3 (sector (snd (Append sampleCipher sampleHash sampleRnd ?d1 [1] ?i
                                   zeroSectorBuilder))) = [66, 67, 68]"
    by (simp only: sec)
       (simp add: zeroSectorBuilder_def copy_slice_def sampleCipher_def length_fastrand_Read p3)
  from T a1 a2
  have sep: "set (EncryptSegments_indices (?d1 @ fastrand_Read sampleRnd (padding_of (length ?d1)))
                    (startIndex ?i)) \<inter>
             set (EncryptSegments_indices (?d2 @ fastrand_Read sampleRnd (padding_of (length ?d2)))
                    (startIndex 1)) = {}"
    by blast
  from T have st: "unat (startIndex ?i) = nat (sint ?i) * SegmentsPerSector"
                  "unat (startIndex (1 :: 64 word)) = nat (sint (1 :: 64 word)) * SegmentsPerSector"
    by blast+
  have e1: "EncryptSegments_indices (?d1 @ fastrand_Read sampleRnd (padding_of 3))
              (startIndex ?i) = [18446744073709486080]"
    by (simp add: EncryptSegments_indices_def segmentIndices_def length_fastrand_Read p3
        SegmentSize_def startIndex_def SegmentsPerSector_def)
  have e2: "EncryptSegments_indices (?d2 @ fastrand_Read sampleRnd (padding_of 5))
              (startIndex 1) = [65536]"
    by (simp add: EncryptSegments_indices_def segmentIndices_def length_fastrand_Read p5
        SegmentSize_def startIndex_def SegmentsPerSector_def)
  show ?thesis
    using f1 st sep t3 e1 e2 by (simp add: s SegmentsPerSector_def)
qed

end
